theory Spec2Isabelle
  imports Main
begin

section \<open>JavaScript primitives used by the handlers\<close>

text \<open>
  \<open>Array.prototype.slice(0, end)\<close>: a negative \<open>end\<close> counts from the back of the
  array, and the result is clamped to the array.
\<close>

definition js_slice0 :: "'a list \<Rightarrow> int \<Rightarrow> 'a list" where
  "js_slice0 xs e =
     (let n = int (length xs);
          k = (if e < 0 then max (n + e) 0 else min e n)
      in take (nat k) xs)"

text \<open>
  \<open>xs[i]\<close>: reading outside the array gives \<open>undefined\<close>, here \<open>None\<close>.
\<close>

definition js_index :: "'a list \<Rightarrow> int \<Rightarrow> 'a option" where
  "js_index xs i = (if 0 \<le> i \<and> i < int (length xs) then Some (xs ! nat i) else None)"

text \<open>\<open>hay.includes(needle)\<close> and \<open>s.startsWith(p)\<close> on strings.\<close>

fun js_includes :: "string \<Rightarrow> string \<Rightarrow> bool" where
  "js_includes [] needle = (needle = [])"
| "js_includes (c # cs) needle =
     (take (length needle) (c # cs) = needle \<or> js_includes cs needle)"

definition js_startsWith :: "string \<Rightarrow> string \<Rightarrow> bool" where
  "js_startsWith s p = (take (length p) s = p)"

text \<open>
  A thrown value: an \<open>Error\<close> object with its message, or anything else (a rejected
  promise may carry an event object). The handlers show
  \<open>e instanceof Error ? e.message : fallback\<close>.
\<close>

datatype thrown = JsError string | NotAnError

fun message_or :: "string \<Rightarrow> thrown \<Rightarrow> string" where
  "message_or fallback (JsError m) = m"
| "message_or fallback NotAnError = fallback"

text \<open>The settlement of a promise of a data URL.\<close>

datatype settled = Resolved string | Rejected thrown


section \<open>The editor: history, undo, redo, regenerate\<close>

text \<open>
  A \<open>File\<close> as the editor reads it: its name, its MIME type and its size in bytes.
\<close>

record File =
  file_name :: string
  file_type :: string
  file_size :: nat

definition MAX_FILE_SIZE_MB :: nat where
  "MAX_FILE_SIZE_MB = 12"

definition MAX_FILE_SIZE_BYTES :: nat where
  "MAX_FILE_SIZE_BYTES = MAX_FILE_SIZE_MB * 1024 * 1024"

datatype LastAction =
    Retouch string "int \<times> int"
  | Adjust string
  | Filters string
  | Fusion string "File list"
  | Texture string
  | Erase

text \<open>
  The state of \<open>EditorView\<close> held in \<open>useState\<close> cells. Only the cells that the
  history handlers read or write are kept; crop, hotspot, tab and batch-modal cells carry
  no history information.
\<close>

record EditorState =
  history :: "File list"
  historyIndex :: int
  isLoading :: bool
  error :: "string option"
  lastAction :: "LastAction option"

text \<open>The state at mount: \<open>useState([])\<close>, \<open>useState(-1)\<close>, and so on.\<close>

definition mountState :: EditorState where
  "mountState = \<lparr>history = [], historyIndex = - 1, isLoading = False,
                  error = None, lastAction = None\<rparr>"

text \<open>\<open>currentImageFile = history[historyIndex]\<close>.\<close>

definition currentImageFile :: "EditorState \<Rightarrow> File option" where
  "currentImageFile s = js_index (history s) (historyIndex s)"

text \<open>
  Every handler is a closure created during one render: the names \<open>history\<close> and
  \<open>historyIndex\<close> in its body are the values of that render, and the setters it calls
  overwrite the cells with values computed from them. Each handler below therefore takes
  the render it closes over (first argument \<open>r\<close>) apart from the state its setters act
  on. For a handler invoked from the render that is on screen the two coincide.

  \<open>updateHistory\<close>: \<open>newHistory = history.slice(0, historyIndex + 1)\<close>,
  \<open>newHistory.push(newFile)\<close>, \<open>setHistory(newHistory)\<close>,
  \<open>setHistoryIndex(newHistory.length - 1)\<close>.
\<close>

definition updateHistory :: "EditorState \<Rightarrow> File \<Rightarrow> EditorState \<Rightarrow> EditorState" where
  "updateHistory r newFile s =
     (let newHistory = js_slice0 (history r) (historyIndex r + 1) @ [newFile]
      in s\<lparr>history := newHistory, historyIndex := int (length newHistory) - 1\<rparr>)"

text \<open>
  \<open>handleUndo\<close>, \<open>handleRedo\<close>: \<open>useCallback\<close> with \<open>historyIndex\<close> (and
  \<open>history.length\<close>) as dependencies, so the closure is the one of the current render.
\<close>

definition handleUndo :: "EditorState \<Rightarrow> EditorState" where
  "handleUndo s =
     (if historyIndex s > 0 then s\<lparr>historyIndex := historyIndex s - 1\<rparr> else s)"

definition handleRedo :: "EditorState \<Rightarrow> EditorState" where
  "handleRedo s =
     (if historyIndex s < int (length (history s)) - 1
      then s\<lparr>historyIndex := historyIndex s + 1\<rparr> else s)"

definition handleStartOver :: "EditorState \<Rightarrow> EditorState" where
  "handleStartOver s = s\<lparr>history := [], historyIndex := - 1, lastAction := None\<rparr>"

text \<open>
  The four operations of the history manager. \<open>Push\<close> is \<open>updateHistory\<close> called from
  the render on screen, as the crop and generate handlers do.
\<close>

datatype hist_op = Push File | Undo | Redo | Reset

fun apply_op :: "EditorState \<Rightarrow> hist_op \<Rightarrow> EditorState" where
  "apply_op s (Push e) = updateHistory s e s"
| "apply_op s Undo = handleUndo s"
| "apply_op s Redo = handleRedo s"
| "apply_op s Reset = handleStartOver s"

definition run_ops :: "hist_op list \<Rightarrow> EditorState" where
  "run_ops ops = foldl apply_op mountState ops"

text \<open>The invariant of the data model.\<close>

definition hist_inv :: "EditorState \<Rightarrow> bool" where
  "hist_inv s =
     (if history s = [] then historyIndex s = - 1
      else 0 \<le> historyIndex s \<and> historyIndex s < int (length (history s)))"


section \<open>Uploads\<close>

text \<open>
  The message of the size check:
  the Chinese sentence of the source in UTF-8, around the number of megabytes.
\<close>

definition sizeErrorPrefix :: string where
  "sizeErrorPrefix =
     [CHR 0xE5, CHR 0x9B, CHR 0xBE, CHR 0xE7, CHR 0x89, CHR 0x87, CHR 0xE6, CHR 0x96,
      CHR 0x87, CHR 0xE4, CHR 0xBB, CHR 0xB6, CHR 0xE5, CHR 0xA4, CHR 0xA7, CHR 0xE5,
      CHR 0xB0, CHR 0x8F, CHR 0xE4, CHR 0xB8, CHR 0x8D, CHR 0xE8, CHR 0x83, CHR 0xBD,
      CHR 0xE8, CHR 0xB6, CHR 0x85, CHR 0xE8, CHR 0xBF, CHR 0x87, CHR 0x20]"

definition sizeErrorSuffix :: string where
  "sizeErrorSuffix =
     [CHR 0x4D, CHR 0x42, CHR 0xE3, CHR 0x80, CHR 0x82, CHR 0xE8, CHR 0xAF, CHR 0xB7,
      CHR 0xE9, CHR 0x80, CHR 0x89, CHR 0xE6, CHR 0x8B, CHR 0xA9, CHR 0xE4, CHR 0xB8,
      CHR 0x80, CHR 0xE4, CHR 0xB8, CHR 0xAA, CHR 0xE8, CHR 0xBE, CHR 0x83, CHR 0xE5,
      CHR 0xB0, CHR 0x8F, CHR 0xE7, CHR 0x9A, CHR 0x84, CHR 0xE6, CHR 0x96, CHR 0x87,
      CHR 0xE4, CHR 0xBB, CHR 0xB6, CHR 0xE3, CHR 0x80, CHR 0x82]"

definition sizeErrorMessage :: string where
  "sizeErrorMessage = sizeErrorPrefix @ ''12'' @ sizeErrorSuffix"

text \<open>
  \<open>handleLocalFileSelect\<close>, the \<open>onFileSelect\<close> of the start screen (file dialog, drop
  and paste). A \<open>FileList | null\<close> is an optional list. The handler calls no service.
\<close>

definition handleLocalFileSelect :: "File list option \<Rightarrow> EditorState \<Rightarrow> EditorState" where
  "handleLocalFileSelect files s =
     (case files of
        Some (file # rest) \<Rightarrow>
          if file_size file > MAX_FILE_SIZE_BYTES
          then s\<lparr>error := Some sizeErrorMessage\<rparr>
          else s\<lparr>history := [file], historyIndex := 0, error := None, lastAction := None\<rparr>
      | _ \<Rightarrow> s)"

text \<open>
  \<open>handleFileInputChange\<close>, the \<open>onChange\<close> of the hidden input behind the
  replace-image button. It is wrapped in \<open>useCallback\<close> with an empty dependency list,
  so the \<open>updateHistory\<close> it calls is the closure of the first render, which sees the
  history of \<open>mountState\<close>. The only test on the file is its MIME type.
\<close>

definition handleFileInputChange :: "File list option \<Rightarrow> EditorState \<Rightarrow> EditorState" where
  "handleFileInputChange files s =
     (case files of
        Some (file # rest) \<Rightarrow>
          if js_startsWith (file_type file) ''image/''
          then (updateHistory mountState file s)\<lparr>lastAction := None\<rparr>
          else s
      | _ \<Rightarrow> s)"


section \<open>Generative tasks of the editor\<close>

text \<open>
  A call of the service layer, as the task closures of the editor build it. The image
  argument is \<open>history[i]\<close>, which is \<open>undefined\<close> outside the array.
\<close>

datatype GenCall =
    GenerateEditedImage "File option" string "int \<times> int"
  | GenerateAdjustedImage "File option" string
  | GenerateFilteredImage "File option" string
  | GenerateTexturedImage "File option" string
  | RemoveBackgroundImage "File option"
  | GenerateFusedImage "File option" "File list" string

definition unknownErrorMessage :: string where
  "unknownErrorMessage =
     [CHR 0xE5, CHR 0x8F, CHR 0x91, CHR 0xE7, CHR 0x94, CHR 0x9F, CHR 0xE4, CHR 0xBA,
      CHR 0x86, CHR 0xE6, CHR 0x9C, CHR 0xAA, CHR 0xE7, CHR 0x9F, CHR 0xA5, CHR 0xE9,
      CHR 0x94, CHR 0x99, CHR 0xE8, CHR 0xAF, CHR 0xAF]"

text \<open>
  \<open>runGenerativeTask(task, 1)\<close>. The arguments: \<open>toFile\<close> is \<open>dataURLtoFile\<close> (it
  decodes with the browser's \<open>atob\<close> and throws on a malformed URL), \<open>r\<close> is the render
  whose \<open>runGenerativeTask\<close> is called, \<open>res\<close> is how the promise of \<open>task()\<close>
  settles, and \<open>s\<close> is the state the setters act on. Before the await the handler sets
  \<open>isLoading\<close> and clears \<open>error\<close>; after it, inside \<open>try\<close>, it converts the URL and
  calls the \<open>updateHistory\<close> of its own render; \<open>catch\<close> stores the message and
  \<open>finally\<close> clears \<open>isLoading\<close>.
\<close>

definition runGenerativeTask ::
  "(string \<Rightarrow> thrown + File) \<Rightarrow> EditorState \<Rightarrow> settled \<Rightarrow> EditorState \<Rightarrow> EditorState" where
  "runGenerativeTask toFile r res s =
     (let s1 = s\<lparr>isLoading := True, error := None\<rparr>;
          s2 = (case res of
                  Rejected e \<Rightarrow> s1\<lparr>error := Some (message_or unknownErrorMessage e)\<rparr>
                | Resolved resultDataUrl \<Rightarrow>
                    (case toFile resultDataUrl of
                       Inl e \<Rightarrow> s1\<lparr>error := Some (message_or unknownErrorMessage e)\<rparr>
                     | Inr newFile \<Rightarrow> updateHistory r newFile s1))
      in s2\<lparr>isLoading := False\<rparr>)"

text \<open>
  \<open>handleRegenerate\<close>: \<open>useCallback\<close> over \<open>lastAction\<close>, \<open>history\<close>,
  \<open>historyIndex\<close> and \<open>isLoading\<close>, so its closure is the render on screen, \<open>s\<close>.
  \<open>regenerateTask\<close> is the guard and the \<open>switch\<close> that builds the task.
\<close>

definition regenerateTask :: "EditorState \<Rightarrow> GenCall option" where
  "regenerateTask s =
     (case lastAction s of
        None \<Rightarrow> None
      | Some a \<Rightarrow>
          if historyIndex s < 1 \<or> isLoading s then None
          else
            (let imageToEdit = js_index (history s) (historyIndex s - 1)
             in Some (case a of
                        Retouch p h \<Rightarrow> GenerateEditedImage imageToEdit p h
                      | Adjust p \<Rightarrow> GenerateAdjustedImage imageToEdit p
                      | Filters p \<Rightarrow> GenerateFilteredImage imageToEdit p
                      | Texture p \<Rightarrow> GenerateTexturedImage imageToEdit p
                      | Erase \<Rightarrow> RemoveBackgroundImage imageToEdit
                      | Fusion p srcs \<Rightarrow> GenerateFusedImage imageToEdit srcs p)))"

text \<open>
  The body after the \<open>switch\<close>: \<open>setHistoryIndex(historyIndex - 1)\<close>, then
  \<open>runGenerativeTask(task, 1)\<close>, the function of the same render \<open>s\<close>. \<open>service\<close> says
  how the promise of each call settles.
\<close>

definition handleRegenerate ::
  "(string \<Rightarrow> thrown + File) \<Rightarrow> (GenCall \<Rightarrow> settled) \<Rightarrow> EditorState \<Rightarrow> EditorState" where
  "handleRegenerate toFile service s =
     (case regenerateTask s of
        None \<Rightarrow> s
      | Some task \<Rightarrow>
          runGenerativeTask toFile s (service task)
            (s\<lparr>historyIndex := historyIndex s - 1\<rparr>))"


section \<open>The service layer: one call of the image model\<close>

text \<open>
  What the SDK's \<open>generateContent\<close> hands back, as far as \<open>callImageEditingModel\<close>
  reads it: the first candidate, its optional content with optional parts, a finish reason
  and the \<open>blocked\<close> flags of its safety ratings. A part may carry inline image data
  (MIME type and base64 text) and may carry text.
\<close>

record Part =
  part_inlineData :: "(string \<times> string) option"
  part_text :: "string option"

record Content =
  content_parts :: "Part list option"

record Candidate =
  cand_content :: "Content option"
  cand_finishReason :: "string option"
  cand_safetyRatings :: "bool list option"

text \<open>
  One round trip: \<open>getGoogleAI()\<close> or the request throws, or a response arrives whose
  \<open>candidates?.[0]\<close> may be missing.
\<close>

datatype api_outcome = ApiThrows thrown | ApiResponds "Candidate option"

text \<open>A request: the inline image part and the text part.\<close>

type_synonym request = "(string \<times> string) \<times> string"

text \<open>The remote model: its answer to the k-th request of one service call.\<close>

type_synonym remote = "nat \<Rightarrow> request \<Rightarrow> api_outcome"

definition truthy_string :: "string option \<Rightarrow> bool" where
  "truthy_string s = (case s of None \<Rightarrow> False | Some v \<Rightarrow> v \<noteq> [])"

definition textInsteadOfImageMessage :: string where
  "textInsteadOfImageMessage =
     ''Model responded with text instead of an image. The prompt may have been blocked.''"

definition noImageMessage :: string where
  "noImageMessage =
     [CHR 0x41, CHR 0x49, CHR 0x20, CHR 0xE6, CHR 0x9C, CHR 0xAA, CHR 0xE8, CHR 0x83,
      CHR 0xBD, CHR 0xE8, CHR 0xBF, CHR 0x94, CHR 0xE5, CHR 0x9B, CHR 0x9E, CHR 0xE9,
      CHR 0xA2, CHR 0x84, CHR 0xE6, CHR 0x9C, CHR 0x9F, CHR 0xE7, CHR 0x9A, CHR 0x84,
      CHR 0xE5, CHR 0x9B, CHR 0xBE, CHR 0xE7, CHR 0x89, CHR 0x87, CHR 0xE7, CHR 0xBB,
      CHR 0x93, CHR 0xE6, CHR 0x9E, CHR 0x9C, CHR 0xE3, CHR 0x80, CHR 0x82]"

text \<open>The message built when the response has no usable parts.\<close>

definition detailedError :: "Candidate option \<Rightarrow> string" where
  "detailedError cand =
     ''AI did not return a valid result.''
     @ (case cand of
          None \<Rightarrow> []
        | Some c \<Rightarrow>
            (if truthy_string (cand_finishReason c)
             then '' Reason: '' @ (case cand_finishReason c of Some r \<Rightarrow> r | None \<Rightarrow> []) @ ''.''
             else [])
            @ (case cand_safetyRatings c of
                 Some rs \<Rightarrow>
                   if list_ex (\<lambda>blocked. blocked) rs
                   then '' The prompt may have been blocked by safety filters.'' else []
               | None \<Rightarrow> []))"

text \<open>
  The parts of a well-formed response: \<open>None\<close> when the candidate, its content or its
  parts are missing or the list of parts is empty.
\<close>

definition responseParts :: "Candidate option \<Rightarrow> Part list option" where
  "responseParts cand =
     (case cand of
        None \<Rightarrow> None
      | Some c \<Rightarrow>
          (case cand_content c of
             None \<Rightarrow> None
           | Some ct \<Rightarrow>
               (case content_parts ct of
                  None \<Rightarrow> None
                | Some [] \<Rightarrow> None
                | Some ps \<Rightarrow> Some ps)))"

text \<open>The loop over the parts: the first part with inline data gives the data URL.\<close>

fun firstInlineData :: "Part list \<Rightarrow> string option" where
  "firstInlineData [] = None"
| "firstInlineData (p # ps) =
     (case part_inlineData p of
        Some (mimeType, dat) \<Rightarrow> Some (''data:'' @ mimeType @ '';base64,'' @ dat)
      | None \<Rightarrow> firstInlineData ps)"

text \<open>
  The \<open>catch\<close> of \<open>callImageEditingModel\<close>: the two errors it builds itself are
  re-thrown as they are, recognised by their text; anything else goes through
  \<open>handleApiError\<close>. That function rewrites a message with \<open>JSON.parse\<close> and the stored
  base URL; it is the parameter \<open>hae\<close> here, from the thrown value and the action label to
  the message of the new \<open>Error\<close>.
\<close>

definition rethrowOrWrap :: "(thrown \<Rightarrow> string \<Rightarrow> string) \<Rightarrow> string \<Rightarrow> thrown \<Rightarrow> settled" where
  "rethrowOrWrap hae action e =
     (case e of
        JsError m \<Rightarrow>
          if js_includes m ''Model responded with text''
             \<or> js_includes m ''AI did not return a valid result''
          then Rejected e
          else Rejected (JsError (hae e action))
      | NotAnError \<Rightarrow> Rejected (JsError (hae e action)))"

definition callImageEditingModel ::
  "(thrown \<Rightarrow> string \<Rightarrow> string) \<Rightarrow> api_outcome \<Rightarrow> string \<Rightarrow> settled" where
  "callImageEditingModel hae outcome action =
     (case outcome of
        ApiThrows e \<Rightarrow> rethrowOrWrap hae action e
      | ApiResponds cand \<Rightarrow>
          (case responseParts cand of
             None \<Rightarrow> rethrowOrWrap hae action (JsError (detailedError cand))
           | Some ps \<Rightarrow>
               (case firstInlineData ps of
                  Some url \<Rightarrow> Resolved url
                | None \<Rightarrow>
                    if truthy_string (part_text (hd ps))
                    then rethrowOrWrap hae action (JsError textInsteadOfImageMessage)
                    else rethrowOrWrap hae action (JsError noImageMessage))))"


section \<open>The service layer: generation with a fallback prompt\<close>

text \<open>
  The test of the \<open>catch\<close> blocks:
  \<open>error instanceof Error && error.message.includes("Model responded with text instead of an image")\<close>.
\<close>

definition isTextInsteadOfImage :: "thrown \<Rightarrow> bool" where
  "isTextInsteadOfImage e =
     (case e of
        JsError m \<Rightarrow> js_includes m ''Model responded with text instead of an image''
      | NotAnError \<Rightarrow> False)"

text \<open>
  The result of one service call: how its promise settles, and the requests it sent to
  the model, in order.
\<close>

record ServiceRun =
  outcome :: settled
  requests :: "request list"

text \<open>
  \<open>generateFilteredImage\<close>, \<open>generateStyledImage\<close>, \<open>generateAdjustedImage\<close> and
  \<open>generateTexturedImage\<close> have the same body up to the English prefix of the primary
  prompt and the action label. \<open>imagePart\<close> is the settlement of
  \<open>fileToGenerativePart\<close>, awaited before the \<open>try\<close>.
\<close>

definition prefixedGeneration ::
  "string \<Rightarrow> string \<Rightarrow> (thrown \<Rightarrow> string \<Rightarrow> string) \<Rightarrow> remote
     \<Rightarrow> thrown + (string \<times> string) \<Rightarrow> string \<Rightarrow> ServiceRun" where
  "prefixedGeneration pre action hae api imagePart prompt =
     (case imagePart of
        Inl e \<Rightarrow> \<lparr>outcome = Rejected e, requests = []\<rparr>
      | Inr ip \<Rightarrow>
          (let primary = (ip, pre @ prompt)
           in case callImageEditingModel hae (api 0 primary) action of
                Resolved url \<Rightarrow> \<lparr>outcome = Resolved url, requests = [primary]\<rparr>
              | Rejected e \<Rightarrow>
                  if isTextInsteadOfImage e
                  then (let fallback = (ip, prompt)
                        in \<lparr>outcome = callImageEditingModel hae (api 1 fallback)
                                         (action @ '' (fallback)''),
                            requests = [primary, fallback]\<rparr>)
                  else \<lparr>outcome = Rejected e, requests = [primary]\<rparr>))"

text \<open>The action labels, Chinese words of the source in UTF-8.\<close>

definition filterLabel :: string where
  "filterLabel = [CHR 0xE6, CHR 0xBB, CHR 0xA4, CHR 0xE9, CHR 0x95, CHR 0x9C]"

definition styleLabel :: string where
  "styleLabel =
     [CHR 0xE5, CHR 0xBA, CHR 0x94, CHR 0xE7, CHR 0x94, CHR 0xA8, CHR 0xE9, CHR 0xA3,
      CHR 0x8E, CHR 0xE6, CHR 0xA0, CHR 0xBC]"

definition adjustLabel :: string where
  "adjustLabel = [CHR 0xE8, CHR 0xB0, CHR 0x83, CHR 0xE6, CHR 0x95, CHR 0xB4]"

definition textureLabel :: string where
  "textureLabel = [CHR 0xE7, CHR 0xBA, CHR 0xB9, CHR 0xE7, CHR 0x90, CHR 0x86]"

definition generateFilteredImage ::
  "(thrown \<Rightarrow> string \<Rightarrow> string) \<Rightarrow> remote \<Rightarrow> thrown + (string \<times> string) \<Rightarrow> string \<Rightarrow> ServiceRun" where
  "generateFilteredImage =
     prefixedGeneration ''Apply this filter: '' filterLabel"

definition generateStyledImage ::
  "(thrown \<Rightarrow> string \<Rightarrow> string) \<Rightarrow> remote \<Rightarrow> thrown + (string \<times> string) \<Rightarrow> string \<Rightarrow> ServiceRun" where
  "generateStyledImage =
     prefixedGeneration ''Apply this artistic style: '' styleLabel"

definition generateAdjustedImage ::
  "(thrown \<Rightarrow> string \<Rightarrow> string) \<Rightarrow> remote \<Rightarrow> thrown + (string \<times> string) \<Rightarrow> string \<Rightarrow> ServiceRun" where
  "generateAdjustedImage =
     prefixedGeneration ''Apply this adjustment: '' adjustLabel"

definition generateTexturedImage ::
  "(thrown \<Rightarrow> string \<Rightarrow> string) \<Rightarrow> remote \<Rightarrow> thrown + (string \<times> string) \<Rightarrow> string \<Rightarrow> ServiceRun" where
  "generateTexturedImage =
     prefixedGeneration ''Apply this texture: '' textureLabel"

text \<open>
  \<open>extractDecade\<close>: the leftmost match of \<open>/(\d{4}s)/\<close>, four digits and an \<open>s\<close>.
\<close>

definition isDigit :: "char \<Rightarrow> bool" where
  "isDigit c = (c \<in> set ''0123456789'')"

fun extractDecade :: "string \<Rightarrow> string option" where
  "extractDecade [] = None"
| "extractDecade (c # cs) =
     (if 5 \<le> length (c # cs) \<and> list_all isDigit (take 4 (c # cs)) \<and> (c # cs) ! 4 = CHR ''s''
      then Some (take 5 (c # cs))
      else extractDecade cs)"

definition getFallbackPrompt :: "string \<Rightarrow> string" where
  "getFallbackPrompt decade =
     ''Create a photograph of the person in this image as if they were living in the ''
     @ decade
     @ ''. The photograph should capture the distinct fashion, hairstyles, and overall atmosphere of that time period. Ensure the final image is a clear photograph that looks authentic to the era.''"

text \<open>
  The match of \<open>/^data:(image\/\w+);base64,(.*)$/\<close> on the uploaded data URL: the word
  characters run up to \<open>;base64,\<close>, and the rest holds no line terminator (line feed,
  carriage return, and U+2028, U+2029 in their UTF-8 form).
\<close>

definition isWordChar :: "char \<Rightarrow> bool" where
  "isWordChar c =
     (c \<in> set ''ABCDEFGHIJKLMNOPQRSTUVWXYZabcdefghijklmnopqrstuvwxyz0123456789_'')"

definition noLineTerminator :: "string \<Rightarrow> bool" where
  "noLineTerminator s =
     (CHR 0x0A \<notin> set s \<and> CHR 0x0D \<notin> set s
      \<and> \<not> js_includes s [CHR 0xE2, CHR 0x80, CHR 0xA8]
      \<and> \<not> js_includes s [CHR 0xE2, CHR 0x80, CHR 0xA9])"

definition matchImageDataUrl :: "string \<Rightarrow> (string \<times> string) option" where
  "matchImageDataUrl u =
     (if js_startsWith u ''data:image/''
      then (let body = drop 11 u;
                word = takeWhile isWordChar body;
                rest = dropWhile isWordChar body
            in if word \<noteq> [] \<and> js_startsWith rest '';base64,'' \<and> noLineTerminator (drop 8 rest)
               then Some (''image/'' @ word, drop 8 rest)
               else None)
      else None)"

text \<open>The action label \<open>`... ${extractDecade(prompt)} ...`\<close>; \<open>null\<close> prints as text.\<close>

definition decadeAction :: "string option \<Rightarrow> string" where
  "decadeAction d =
     [CHR 0xE7, CHR 0x94, CHR 0x9F, CHR 0xE6, CHR 0x88, CHR 0x90, CHR 0x20]
     @ (case d of None \<Rightarrow> ''null'' | Some v \<Rightarrow> v)
     @ [CHR 0x20, CHR 0xE5, CHR 0x9B, CHR 0xBE, CHR 0xE5, CHR 0x83, CHR 0x8F]"

definition generateDecadeImage ::
  "(thrown \<Rightarrow> string \<Rightarrow> string) \<Rightarrow> remote \<Rightarrow> string \<Rightarrow> string \<Rightarrow> ServiceRun" where
  "generateDecadeImage hae api imageDataUrl prompt =
     (case matchImageDataUrl imageDataUrl of
        None \<Rightarrow> \<lparr>outcome = Rejected (JsError ''Invalid image data URL format.''), requests = []\<rparr>
      | Some ip \<Rightarrow>
          (let primary = (ip, prompt)
           in case callImageEditingModel hae (api 0 primary) (decadeAction (extractDecade prompt)) of
                Resolved url \<Rightarrow> \<lparr>outcome = Resolved url, requests = [primary]\<rparr>
              | Rejected e \<Rightarrow>
                  if isTextInsteadOfImage e
                  then (case extractDecade prompt of
                          None \<Rightarrow> \<lparr>outcome = Rejected e, requests = [primary]\<rparr>
                        | Some decade \<Rightarrow>
                            (let fallback = (ip, getFallbackPrompt decade)
                             in \<lparr>outcome = callImageEditingModel hae (api 1 fallback)
                                              (decadeAction (Some decade) @ '' (fallback)''),
                                 requests = [primary, fallback]\<rparr>))
                  else \<lparr>outcome = Rejected e, requests = [primary]\<rparr>))"

text \<open>
  The fallback policy, as a property of one run. \<open>first\<close> is the settlement of the first
  attempt, \<open>second\<close> that of the fallback attempt, \<open>eligible\<close> says whether the function
  has a fallback prompt for this input. The run re-issues the request once, with the
  fallback, exactly when the first attempt failed with the text-instead-of-image error on
  an eligible input; otherwise it sent one request and settles as the first attempt did.
\<close>

definition followsFallbackPolicy ::
  "bool \<Rightarrow> request \<Rightarrow> request \<Rightarrow> settled \<Rightarrow> settled \<Rightarrow> ServiceRun \<Rightarrow> bool" where
  "followsFallbackPolicy eligible primary fallback first second run =
     (let textFailure = (case first of Rejected e \<Rightarrow> isTextInsteadOfImage e | Resolved u \<Rightarrow> False)
      in if eligible \<and> textFailure
         then requests run = [primary, fallback] \<and> outcome run = second
         else requests run = [primary] \<and> outcome run = first)"


section \<open>Batch generation: statuses, retry, worker loops\<close>

datatype ImageStatus = Pending | Done | Error

text \<open>\<open>GeneratedImage = { status, url?, error? }\<close>.\<close>

record GeneratedImage =
  img_status :: ImageStatus
  img_url :: "string option"
  img_error :: "string option"

definition pendingImage :: GeneratedImage where
  "pendingImage = \<lparr>img_status = Pending, img_url = None, img_error = None\<rparr>"

text \<open>
  The two updates a task makes when its promise settles:
  \<open>{ status: 'done', url }\<close> in the \<open>try\<close>, and in the \<open>catch\<close>
  \<open>{ status: 'error', error: errorMessage }\<close> with
  \<open>err instanceof Error ? err.message : 'An unknown error occurred.'\<close>.
\<close>

definition settledImage :: "settled \<Rightarrow> GeneratedImage" where
  "settledImage r =
     (case r of
        Resolved u \<Rightarrow> \<lparr>img_status = Done, img_url = Some u, img_error = None\<rparr>
      | Rejected e \<Rightarrow>
          \<lparr>img_status = Error, img_url = None,
           img_error = Some (message_or ''An unknown error occurred.'' e)\<rparr>)"

text \<open>
  \<open>generateWithRetry(file, prompt, retries = 1)\<close>. \<open>styled k\<close> is the settlement of
  the k-th call of \<open>generateStyledImage\<close> made for this task; the result is the
  settlement of the wrapper and the number of calls made so far. The pause of one second
  before the retry changes no value and is not part of the model.
\<close>

fun generateWithRetry :: "(nat \<Rightarrow> settled) \<Rightarrow> nat \<Rightarrow> nat \<Rightarrow> settled \<times> nat" where
  "generateWithRetry styled k retries =
     (case styled k of
        Resolved u \<Rightarrow> (Resolved u, Suc k)
      | Rejected e \<Rightarrow>
          if retries > 0 then generateWithRetry styled (Suc k) (retries - 1)
          else (Rejected e, Suc k))"

text \<open>
  A worker loop between two awaits: it waits for the task it started, or its awaited
  promise has settled and it has not yet run again, or it has left its loop.
\<close>

datatype 'k worker = Awaiting 'k | Resuming | Returned

text \<open>
  A \<open>Record<number, _>\<close>: the properties in ascending order of the index, as
  \<open>Object.values\<close> lists them. \<open>numPut\<close> is \<open>{ ...prev, [index]: v }\<close>.
\<close>

fun numPut :: "nat \<Rightarrow> 'v \<Rightarrow> (nat \<times> 'v) list \<Rightarrow> (nat \<times> 'v) list" where
  "numPut k v [] = [(k, v)]"
| "numPut k v ((k', v') # xs) =
     (if k = k' then (k, v) # xs
      else if k < k' then (k, v) # (k', v') # xs
      else (k', v') # numPut k v xs)"

text \<open>
  A \<open>Record<string, _>\<close> whose keys are not array indices: the properties in insertion
  order; assigning to an existing key keeps its place.
\<close>

fun strPut :: "string \<Rightarrow> 'v \<Rightarrow> (string \<times> 'v) list \<Rightarrow> (string \<times> 'v) list" where
  "strPut k v [] = [(k, v)]"
| "strPut k v ((k', v') # xs) =
     (if k = k' then (k, v) # xs else (k', v') # strPut k v xs)"


section \<open>BeatSyncPage: \<open>handleGenerate\<close>\<close>

text \<open>
  The state of one run: the local \<open>promptsQueue\<close>, the three worker loops and the
  \<open>generatedImages\<close> cell.
\<close>

record BeatSyncRun =
  promptsQueue :: "(nat \<times> string) list"
  workers :: "nat worker list"
  generatedImages :: "(nat \<times> GeneratedImage) list"

definition concurrencyLimit :: nat where
  "concurrencyLimit = 3"

text \<open>
  One turn of a worker, from the test of its \<open>while\<close> to its next await: with an empty
  queue the loop ends; otherwise \<open>processQueue\<close> shifts the head and the call of
  \<open>generateWithRetry\<close> starts.
\<close>

definition workerTurn :: "(nat \<times> string) list \<Rightarrow> nat worker \<times> (nat \<times> string) list" where
  "workerTurn q = (case q of [] \<Rightarrow> (Returned, []) | (index, prompt) # rest \<Rightarrow> (Awaiting index, rest))"

text \<open>
  \<open>Array(concurrencyLimit).fill(null).map(async () => ...)\<close>: the workers are started one
  after the other, each running up to its first await.
\<close>

fun launchWorkers :: "nat \<Rightarrow> (nat \<times> string) list \<Rightarrow> nat worker list \<times> (nat \<times> string) list" where
  "launchWorkers 0 q = ([], q)"
| "launchWorkers (Suc n) q =
     (let (w, q') = workerTurn q; (ws, q'') = launchWorkers n q' in (w # ws, q''))"

text \<open>
  The synchronous part of \<open>handleGenerate\<close>, with an uploaded file:
  \<open>initialImages\<close> has \<open>imageCount\<close> pending entries, the queue is
  \<open>[...stylePrompts.entries()]\<close>.
\<close>

definition handleGenerate :: "nat \<Rightarrow> string list \<Rightarrow> BeatSyncRun" where
  "handleGenerate imageCount stylePrompts =
     (let initialImages = map (\<lambda>i. (i, pendingImage)) [0..<imageCount];
          (ws, q) = launchWorkers concurrencyLimit (zip [0..<length stylePrompts] stylePrompts)
      in \<lparr>promptsQueue = q, workers = ws, generatedImages = initialImages\<rparr>)"

text \<open>
  What the event loop can do next. \<open>Settles w styled\<close>: the task awaited by worker
  \<open>w\<close> settles, its calls of \<open>generateStyledImage\<close> having settled as \<open>styled\<close> says;
  \<open>processQueue\<close> writes the status. \<open>Resumes w\<close>: worker \<open>w\<close> runs its next turn.
  An event that is not enabled gives \<open>None\<close>.
\<close>

datatype bs_event = Settles nat "nat \<Rightarrow> settled" | Resumes nat

fun bs_step :: "BeatSyncRun \<Rightarrow> bs_event \<Rightarrow> BeatSyncRun option" where
  "bs_step s (Settles w styled) =
     (if w < length (workers s)
      then (case workers s ! w of
              Awaiting index \<Rightarrow>
                Some (s\<lparr>workers := (workers s)[w := Resuming],
                        generatedImages :=
                          numPut index (settledImage (fst (generateWithRetry styled 0 1)))
                            (generatedImages s)\<rparr>)
            | _ \<Rightarrow> None)
      else None)"
| "bs_step s (Resumes w) =
     (if w < length (workers s) \<and> workers s ! w = Resuming
      then (let (st, q) = workerTurn (promptsQueue s)
            in Some (s\<lparr>promptsQueue := q, workers := (workers s)[w := st]\<rparr>))
      else None)"

fun bs_run :: "BeatSyncRun \<Rightarrow> bs_event list \<Rightarrow> BeatSyncRun option" where
  "bs_run s [] = Some s"
| "bs_run s (ev # evs) = (case bs_step s ev of None \<Rightarrow> None | Some s' \<Rightarrow> bs_run s' evs)"

text \<open>The tasks in flight, and the moment \<open>await Promise.all(workers)\<close> returns.\<close>

definition inFlight :: "'k worker list \<Rightarrow> 'k list" where
  "inFlight ws = concat (map (\<lambda>w. case w of Awaiting k \<Rightarrow> [k] | _ \<Rightarrow> []) ws)"

definition allReturned :: "'k worker list \<Rightarrow> bool" where
  "allReturned ws = list_all (\<lambda>w. w = Returned) ws"

definition isTerminal :: "GeneratedImage \<Rightarrow> bool" where
  "isTerminal img = (img_status img = Done \<or> img_status img = Error)"


section \<open>PastForwardPage: \<open>handleGenerateClick\<close>\<close>

definition DECADES :: "string list" where
  "DECADES = [''1950s'', ''1960s'', ''1970s'', ''1980s'', ''1990s'', ''2000s'']"

definition decadeLimit :: nat where
  "decadeLimit = 2"

text \<open>
  The state of one run: the local \<open>decadesQueue\<close>; the tasks started by the first
  \<open>map(processQueue)\<close>, whose promises land in the array \<open>workers\<close> that nothing awaits;
  the loops started by the second \<open>map\<close>, which \<open>Promise.all\<close> awaits; and the
  \<open>generatedImages\<close> cell.
\<close>

record PastForwardRun =
  decadesQueue :: "string list"
  unawaited :: "string list"
  loops :: "string worker list"
  decadeImages :: "(string \<times> GeneratedImage) list"

text \<open>
  \<open>processQueue\<close>: \<open>decade = decadesQueue.shift()\<close>, and \<open>generateSingleDecade\<close> is
  called if \<open>decade\<close> is truthy. The result is the decade whose generation starts, if
  any, and the queue that is left. \<open>generateSingleDecade\<close> first writes the pending
  status of its decade.
\<close>

definition processQueue :: "string list \<Rightarrow> string option \<times> string list" where
  "processQueue q =
     (case q of
        [] \<Rightarrow> (None, [])
      | decade # rest \<Rightarrow> (if decade \<noteq> [] then Some decade else None, rest))"

definition startDecade ::
  "string option \<Rightarrow> (string \<times> GeneratedImage) list \<Rightarrow> (string \<times> GeneratedImage) list" where
  "startDecade d imgs = (case d of None \<Rightarrow> imgs | Some decade \<Rightarrow> strPut decade pendingImage imgs)"

text \<open>
  One direct call \<open>processQueue()\<close> of the first \<open>map\<close>: a started task joins the
  unawaited ones.
\<close>

definition directCall :: "PastForwardRun \<Rightarrow> PastForwardRun" where
  "directCall s =
     (let (d, q) = processQueue (decadesQueue s)
      in s\<lparr>decadesQueue := q,
           unawaited := unawaited s @ (case d of None \<Rightarrow> [] | Some decade \<Rightarrow> [decade]),
           decadeImages := startDecade d (decadeImages s)\<rparr>)"

text \<open>
  One turn of loop \<open>w\<close>: \<open>while (decadesQueue.length > 0) { await processQueue(); }\<close>
  up to its next await.
\<close>

definition loopTurn :: "nat \<Rightarrow> PastForwardRun \<Rightarrow> PastForwardRun" where
  "loopTurn w s =
     (if decadesQueue s = [] then s\<lparr>loops := (loops s)[w := Returned]\<rparr>
      else (let (d, q) = processQueue (decadesQueue s)
            in s\<lparr>decadesQueue := q,
                 loops := (loops s)[w := (case d of None \<Rightarrow> Resuming | Some decade \<Rightarrow> Awaiting decade)],
                 decadeImages := startDecade d (decadeImages s)\<rparr>))"

text \<open>
  The synchronous part of \<open>handleGenerateClick\<close>, with an uploaded image: the pending
  entries, \<open>Array(concurrencyLimit).fill(null).map(processQueue)\<close>, which calls
  \<open>processQueue\<close> twice, then \<open>workers.map(async (worker) => ...)\<close>, which starts one
  loop per element.
\<close>

definition handleGenerateClick :: PastForwardRun where
  "handleGenerateClick =
     (let s0 = \<lparr>decadesQueue = DECADES, unawaited = [],
                loops = replicate decadeLimit Resuming,
                decadeImages = map (\<lambda>d. (d, pendingImage)) DECADES\<rparr>;
          s1 = (directCall ^^ decadeLimit) s0
      in fold loopTurn [0..<decadeLimit] s1)"

text \<open>
  The events: an unawaited task settles, the task awaited by a loop settles, a loop runs
  its next turn. How \<open>generateDecadeImage\<close> settled comes with the event.
\<close>

datatype pf_event = UnawaitedSettles string settled | LoopTaskSettles nat settled | LoopResumes nat

fun pf_step :: "PastForwardRun \<Rightarrow> pf_event \<Rightarrow> PastForwardRun option" where
  "pf_step s (UnawaitedSettles decade r) =
     (if decade \<in> set (unawaited s)
      then Some (s\<lparr>unawaited := remove1 decade (unawaited s),
                   decadeImages := strPut decade (settledImage r) (decadeImages s)\<rparr>)
      else None)"
| "pf_step s (LoopTaskSettles w r) =
     (if w < length (loops s)
      then (case loops s ! w of
              Awaiting decade \<Rightarrow>
                Some (s\<lparr>loops := (loops s)[w := Resuming],
                        decadeImages := strPut decade (settledImage r) (decadeImages s)\<rparr>)
            | _ \<Rightarrow> None)
      else None)"
| "pf_step s (LoopResumes w) =
     (if w < length (loops s) \<and> loops s ! w = Resuming then Some (loopTurn w s) else None)"

fun pf_run :: "PastForwardRun \<Rightarrow> pf_event list \<Rightarrow> PastForwardRun option" where
  "pf_run s [] = Some s"
| "pf_run s (ev # evs) = (case pf_step s ev of None \<Rightarrow> None | Some s' \<Rightarrow> pf_run s' evs)"

text \<open>
  The generation tasks in flight, and the moment \<open>await Promise.all(...)\<close> returns and
  the handler sets \<open>appState\<close> to \<open>'results-shown'\<close>.
\<close>

definition decadesInFlight :: "PastForwardRun \<Rightarrow> string list" where
  "decadesInFlight s = unawaited s @ inFlight (loops s)"

definition resultsShown :: "PastForwardRun \<Rightarrow> bool" where
  "resultsShown s = allReturned (loops s)"


section \<open>BeatSyncPage: the effect that closes a batch\<close>

datatype AppState = Idle | GeneratingImages | GeneratingVideo | ResultsShown | ErrorState

text \<open>\<open>Object.values\<close> of a \<open>Record<number, _>\<close>.\<close>

definition objectValues :: "(nat \<times> 'v) list \<Rightarrow> 'v list" where
  "objectValues obj = map snd obj"

text \<open>
  What one run of the effect does: nothing; \<open>setError(...)\<close> and
  \<open>setAppState('error')\<close>; or an optional \<open>setNotification(...)\<close> followed by
  \<open>createVideo(urls)\<close>.
\<close>

datatype effect_outcome =
    NoAction
  | TotalFailure string
  | CreateVideo "string option" "string list"

text \<open>The two messages, Chinese sentences of the source in UTF-8.\<close>

definition allFailedMessage :: string where
  "allFailedMessage =
     [CHR 0xE6, CHR 0x89, CHR 0x80, CHR 0xE6, CHR 0x9C, CHR 0x89, CHR 0xE5, CHR 0x9B,
      CHR 0xBE, CHR 0xE7, CHR 0x89, CHR 0x87, CHR 0xE7, CHR 0x94, CHR 0x9F, CHR 0xE6,
      CHR 0x88, CHR 0x90, CHR 0xE5, CHR 0xA4, CHR 0xB1, CHR 0xE8, CHR 0xB4, CHR 0xA5,
      CHR 0xEF, CHR 0xBC, CHR 0x8C, CHR 0xE8, CHR 0xAF, CHR 0xB7, CHR 0xE9, CHR 0x87,
      CHR 0x8D, CHR 0xE8, CHR 0xAF, CHR 0x95, CHR 0xE3, CHR 0x80, CHR 0x82]"

definition partialFailureNotice :: string where
  "partialFailureNotice =
     [CHR 0xE9, CHR 0x83, CHR 0xA8, CHR 0xE5, CHR 0x88, CHR 0x86, CHR 0xE5, CHR 0x9B,
      CHR 0xBE, CHR 0xE7, CHR 0x89, CHR 0x87, CHR 0xE7, CHR 0x94, CHR 0x9F, CHR 0xE6,
      CHR 0x88, CHR 0x90, CHR 0xE5, CHR 0xA4, CHR 0xB1, CHR 0xE8, CHR 0xB4, CHR 0xA5,
      CHR 0xEF, CHR 0xBC, CHR 0x8C, CHR 0xE4, CHR 0xBD, CHR 0x86, CHR 0xE6, CHR 0x88,
      CHR 0x91, CHR 0xE4, CHR 0xBB, CHR 0xAC, CHR 0xE5, CHR 0xB0, CHR 0x86, CHR 0xE7,
      CHR 0x94, CHR 0xA8, CHR 0xE6, CHR 0x88, CHR 0x90, CHR 0xE5, CHR 0x8A, CHR 0x9F,
      CHR 0xE7, CHR 0x9A, CHR 0x84, CHR 0xE5, CHR 0x9B, CHR 0xBE, CHR 0xE7, CHR 0x89,
      CHR 0x87, CHR 0xE5, CHR 0x88, CHR 0x9B, CHR 0xE5, CHR 0xBB, CHR 0xBA, CHR 0xE8,
      CHR 0xA7, CHR 0x86, CHR 0xE9, CHR 0xA2, CHR 0x91, CHR 0xE3, CHR 0x80, CHR 0x82]"

text \<open>
  The effect over \<open>generatedImages\<close>, \<open>appState\<close> and \<open>imageCount\<close>. The filter keeps
  an image when \<open>img.status === 'done' && img.url\<close>; for those \<open>img.url!\<close> is the
  string.
\<close>

definition allDoneEffect :: "AppState \<Rightarrow> nat \<Rightarrow> (nat \<times> GeneratedImage) list \<Rightarrow> effect_outcome" where
  "allDoneEffect appState imageCount images =
     (let vals = objectValues images
      in if appState \<noteq> GeneratingImages \<or> length vals = 0 then NoAction
         else if length vals = imageCount \<and> list_all (\<lambda>img. img_status img \<noteq> Pending) vals
         then (let successfulImages =
                     filter (\<lambda>img. img_status img = Done \<and> truthy_string (img_url img)) vals
               in if length successfulImages = 0 then TotalFailure allFailedMessage
                  else CreateVideo
                         (if length successfulImages < imageCount
                          then Some partialFailureNotice else None)
                         (map (\<lambda>img. case img_url img of Some u \<Rightarrow> u | None \<Rightarrow> [])
                            successfulImages))
         else NoAction)"

text \<open>
  The artifacts of the tasks that ended with status \<open>done\<close>, in the order of their
  indices; and the shape of every \<open>done\<close> entry that \<open>processQueue\<close> writes: its URL
  is there and is not the empty string.
\<close>

definition successfulArtifacts :: "GeneratedImage list \<Rightarrow> string list" where
  "successfulArtifacts vals =
     concat (map (\<lambda>img. if img_status img = Done
                          then (case img_url img of Some u \<Rightarrow> [u] | None \<Rightarrow> [])
                          else []) vals)"

definition doneHaveUrls :: "GeneratedImage list \<Rightarrow> bool" where
  "doneHaveUrls vals =
     list_all (\<lambda>img. img_status img = Done \<longrightarrow> truthy_string (img_url img)) vals"


section \<open>The invariant of a BeatSyncPage run\<close>

text \<open>
  The indices of \<open>generatedImages\<close> ascend; a pending index is still queued or is
  awaited by a worker; and once a worker has left its loop the queue is empty.
\<close>

definition bs_inv :: "BeatSyncRun \<Rightarrow> bool" where
  "bs_inv s =
     (sorted_wrt (<) (map fst (generatedImages s))
      \<and> (\<forall>(i, img) \<in> set (generatedImages s).
            img_status img = Pending \<longrightarrow>
              i \<in> fst ` set (promptsQueue s) \<or> Awaiting i \<in> set (workers s))
      \<and> (Returned \<in> set (workers s) \<longrightarrow> promptsQueue s = []))"


section \<open>Concrete inputs of the examples\<close>

definition photo :: "string \<Rightarrow> File" where
  "photo n = \<lparr>file_name = n, file_type = ''image/png'', file_size = 204800\<rparr>"

text \<open>A PNG of 13 MB, above the cap of 12 MB.\<close>

definition bigPhoto :: File where
  "bigPhoto = \<lparr>file_name = ''big.png'', file_type = ''image/png'',
                file_size = 13 * 1024 * 1024\<rparr>"

text \<open>Five entries, the cursor moved back twice from the last one.\<close>

definition fiveUndoneTwice :: EditorState where
  "fiveUndoneTwice =
     \<lparr>history = [photo ''0'', photo ''1'', photo ''2'', photo ''3'', photo ''4''],
      historyIndex = 2, isLoading = False, error = None, lastAction = None\<rparr>"

text \<open>An upload followed by one filter: two entries, the cursor on the second.\<close>

definition filteredOnce :: EditorState where
  "filteredOnce =
     \<lparr>history = [photo ''upload'', photo ''edit-1''], historyIndex = 1,
      isLoading = False, error = None, lastAction = Some (Filters ''warm tones'')\<rparr>"

definition decodeTo :: "File \<Rightarrow> string \<Rightarrow> thrown + File" where
  "decodeTo f url = Inr f"

definition alwaysResolves :: "GenCall \<Rightarrow> settled" where
  "alwaysResolves c = Resolved ''data:image/png;base64,AAAA''"

definition alwaysRejects :: "GenCall \<Rightarrow> settled" where
  "alwaysRejects c = Rejected (JsError ''quota exceeded'')"


text \<open>
  A model that answers every request with text, a stand-in for \<open>handleApiError\<close>, an
  uploaded data URL, a prompt without a decade and the prompt of the decade page.
\<close>

definition textOnly :: remote where
  "textOnly k req =
     ApiResponds (Some \<lparr>cand_content = Some \<lparr>content_parts =
        Some [\<lparr>part_inlineData = None, part_text = Some ''I cannot help with that.''\<rparr>]\<rparr>,
        cand_finishReason = Some ''STOP'', cand_safetyRatings = None\<rparr>)"

definition wrapMessage :: "thrown \<Rightarrow> string \<Rightarrow> string" where
  "wrapMessage e action = action @ '': '' @ message_or ''unknown'' e"

definition uploadedUrl :: string where
  "uploadedUrl = ''data:image/png;base64,AAAA''"

definition retroPrompt :: string where
  "retroPrompt = ''Make this photo look retro''"

definition fiftiesPrompt :: string where
  "fiftiesPrompt = ''Reimagine the person in this photo in the style of the 1950s.''"


text \<open>
  A generation that succeeds and one that fails; the order of events in which the two
  loops of the decade page finish all their tasks before either unawaited task settles.
\<close>

definition imageOk :: settled where
  "imageOk = Resolved ''data:image/png;base64,BBBB''"

definition imageFails :: settled where
  "imageFails = Rejected (JsError ''quota exceeded'')"

definition loopsFinishFirst :: "pf_event list" where
  "loopsFinishFirst =
     [LoopTaskSettles 0 imageOk, LoopResumes 0, LoopTaskSettles 1 imageOk, LoopResumes 1,
      LoopTaskSettles 0 imageOk, LoopResumes 0, LoopTaskSettles 1 imageOk, LoopResumes 1]"

text \<open>A style task whose first call fails and whose retry succeeds; one that fails twice.\<close>

definition failsThenSucceeds :: "nat \<Rightarrow> settled" where
  "failsThenSucceeds k = (if k = 0 then imageFails else imageOk)"

definition alwaysFails :: "nat \<Rightarrow> settled" where
  "alwaysFails k = imageFails"

text \<open>Batches of five: one failure among four successes, and five failures.\<close>

definition doneImage :: "string \<Rightarrow> GeneratedImage" where
  "doneImage u = \<lparr>img_status = Done, img_url = Some u, img_error = None\<rparr>"

definition errorImage :: GeneratedImage where
  "errorImage = \<lparr>img_status = Error, img_url = None, img_error = Some ''quota exceeded''\<rparr>"

definition oneOfFiveFailed :: "(nat \<times> GeneratedImage) list" where
  "oneOfFiveFailed =
     [(0, doneImage ''data:a''), (1, errorImage), (2, doneImage ''data:c''),
      (3, doneImage ''data:d''), (4, doneImage ''data:e'')]"

definition allFiveFailed :: "(nat \<times> GeneratedImage) list" where
  "allFiveFailed = [(0, errorImage), (1, errorImage), (2, errorImage), (3, errorImage), (4, errorImage)]"


section \<open>Properties of the history manager\<close>

lemma js_slice0_take: "- 1 \<le> i \<Longrightarrow> js_slice0 xs (i + 1) = take (nat (i + 1)) xs"
  by (auto simp: js_slice0_def Let_def min_def)

lemma hist_inv_mount: "hist_inv mountState"
  by (simp add: hist_inv_def mountState_def)

lemma hist_inv_lower: "hist_inv s \<Longrightarrow> - 1 \<le> historyIndex s"
  by (auto simp: hist_inv_def split: if_splits)

lemma hist_inv_upper: "hist_inv s \<Longrightarrow> historyIndex s < int (length (history s))"
  by (auto simp: hist_inv_def split: if_splits)

lemma updateHistory_fields:
  assumes "- 1 \<le> historyIndex r"
  shows "history (updateHistory r e s) = take (nat (historyIndex r + 1)) (history r) @ [e]"
    and "historyIndex (updateHistory r e s)
           = int (min (length (history r)) (nat (historyIndex r + 1)))"
  using assms by (simp_all add: updateHistory_def Let_def js_slice0_take)

lemma hist_inv_updateHistory: "- 1 \<le> historyIndex r \<Longrightarrow> hist_inv (updateHistory r e s)"
  by (simp add: hist_inv_def updateHistory_fields)

lemma hist_inv_undo: "hist_inv s \<Longrightarrow> hist_inv (handleUndo s)"
  by (auto simp: hist_inv_def handleUndo_def split: if_splits)

lemma hist_inv_redo: "hist_inv s \<Longrightarrow> hist_inv (handleRedo s)"
  by (auto simp: hist_inv_def handleRedo_def split: if_splits)

lemma hist_inv_startOver: "hist_inv (handleStartOver s)"
  by (simp add: hist_inv_def handleStartOver_def)

lemma hist_inv_apply_op: "hist_inv s \<Longrightarrow> hist_inv (apply_op s op)"
  by (cases op)
     (simp_all add: hist_inv_updateHistory hist_inv_lower hist_inv_undo hist_inv_redo
        hist_inv_startOver)

lemma hist_inv_foldl: "hist_inv s \<Longrightarrow> hist_inv (foldl apply_op s ops)"
  by (induction ops arbitrary: s) (simp_all add: hist_inv_apply_op)

lemma hist_inv_run_ops: "hist_inv (run_ops ops)"
  unfolding run_ops_def by (rule hist_inv_foldl [OF hist_inv_mount])

lemma current_after_push:
  assumes "hist_inv s"
  shows "currentImageFile (updateHistory s e s) = Some e"
proof -
  have lo: "- 1 \<le> historyIndex s" using assms by (rule hist_inv_lower)
  have up: "historyIndex s < int (length (history s))" using assms by (rule hist_inv_upper)
  have len: "min (length (history s)) (nat (historyIndex s + 1)) = nat (historyIndex s + 1)"
    using lo up by auto
  show ?thesis
    using lo by (simp add: currentImageFile_def js_index_def updateHistory_fields len nth_append)
qed

text \<open>
  Claim C3. After any finite sequence of push, undo, redo and reset from the empty
  history, the cursor is \<open>-1\<close> when the history is empty and otherwise lies in
  \<open>0 \<le> historyIndex < length history\<close>; and a push of \<open>e\<close> performed in that state makes
  \<open>e\<close> the current entry.
\<close>

theorem history_invariant_and_current:
  "hist_inv (run_ops ops) \<and>
   currentImageFile (apply_op (run_ops ops) (Push e)) = Some e"
  by (simp add: hist_inv_run_ops current_after_push)

theorem history_invariant_and_current_witness:
  "hist_inv (run_ops [Push (photo ''0''), Push (photo ''1''), Undo, Redo, Undo, Reset]) \<and>
   currentImageFile
     (apply_op (run_ops [Push (photo ''0''), Push (photo ''1''), Undo, Redo, Undo, Reset])
        (Push (photo ''2''))) = Some (photo ''2'')"
  by (rule history_invariant_and_current)

text \<open>
  Claim C4. In a state that satisfies the invariant, \<open>push e\<close> keeps exactly the entries
  at indices \<open>0 .. historyIndex\<close>, appends \<open>e\<close> behind them and puts the cursor on the
  new last index. The witness is the example of the specification: a history of five
  entries, two undos, then a push.
\<close>

theorem push_truncates_and_appends:
  assumes "hist_inv s"
  shows "history (apply_op s (Push e)) = take (nat (historyIndex s + 1)) (history s) @ [e]
       \<and> length (history (apply_op s (Push e))) = nat (historyIndex s + 2)
       \<and> historyIndex (apply_op s (Push e)) = historyIndex s + 1
       \<and> historyIndex (apply_op s (Push e)) = int (length (history (apply_op s (Push e)))) - 1"
proof -
  have lo: "- 1 \<le> historyIndex s" using assms by (rule hist_inv_lower)
  have up: "historyIndex s < int (length (history s))" using assms by (rule hist_inv_upper)
  have len: "min (length (history s)) (nat (historyIndex s + 1)) = nat (historyIndex s + 1)"
    using lo up by auto
  have suc: "Suc (nat (historyIndex s + 1)) = nat (historyIndex s + 2)"
    using lo by auto
  show ?thesis
    using lo by (simp add: updateHistory_fields len suc)
qed

theorem push_truncates_and_appends_witness:
  "hist_inv fiveUndoneTwice
   \<and> history (apply_op fiveUndoneTwice (Push (photo ''new'')))
       = [photo ''0'', photo ''1'', photo ''2'', photo ''new'']
   \<and> length (history (apply_op fiveUndoneTwice (Push (photo ''new'')))) = 4
   \<and> historyIndex (apply_op fiveUndoneTwice (Push (photo ''new''))) = 3"
proof -
  have inv: "hist_inv fiveUndoneTwice"
    by (simp add: hist_inv_def fiveUndoneTwice_def)
  show ?thesis
    using inv push_truncates_and_appends [OF inv, of "photo ''new''"]
    by (simp add: fiveUndoneTwice_def)
qed

text \<open>
  The example of the specification, run from the empty history: five pushes, two undos
  and a push leave four entries.
\<close>

lemma five_pushes_two_undos_push:
  "history (run_ops [Push (photo ''0''), Push (photo ''1''), Push (photo ''2''),
                     Push (photo ''3''), Push (photo ''4''), Undo, Undo, Push (photo ''new'')])
     = [photo ''0'', photo ''1'', photo ''2'', photo ''new'']"
  by (simp add: run_ops_def mountState_def updateHistory_def js_slice0_def handleUndo_def)


section \<open>Properties of regenerate\<close>

lemma regenerateTask_None_iff:
  "regenerateTask s = None \<longleftrightarrow> lastAction s = None \<or> historyIndex s < 1 \<or> isLoading s"
  by (auto simp: regenerateTask_def Let_def split: option.splits)

text \<open>Without a recorded action, or with the cursor below 1, regenerate changes nothing.\<close>

lemma handleRegenerate_noop:
  "lastAction s = None \<or> historyIndex s < 1 \<Longrightarrow> handleRegenerate toFile service s = s"
  by (auto simp: handleRegenerate_def regenerateTask_def split: option.splits)

text \<open>The image handed to the service is the entry before the cursor.\<close>

lemma regenerateTask_input:
  assumes "regenerateTask s = Some task"
  shows "(case task of
            GenerateEditedImage f p h \<Rightarrow> f
          | GenerateAdjustedImage f p \<Rightarrow> f
          | GenerateFilteredImage f p \<Rightarrow> f
          | GenerateTexturedImage f p \<Rightarrow> f
          | RemoveBackgroundImage f \<Rightarrow> f
          | GenerateFusedImage f srcs p \<Rightarrow> f) = js_index (history s) (historyIndex s - 1)"
  using assms
  by (auto simp: regenerateTask_def Let_def split: option.splits if_splits LastAction.splits)

text \<open>
  What a successful regenerate leaves behind: \<open>updateHistory\<close> is the closure of the
  render in which the button was pressed, so it slices at the cursor of that render, not
  at the decremented one. The new entry is appended behind the entry that was current.
\<close>

lemma handleRegenerate_success:
  assumes "regenerateTask s = Some task"
    and "service task = Resolved url" and "toFile url = Inr f"
  shows "handleRegenerate toFile service s = (updateHistory s f s)\<lparr>error := None\<rparr>"
proof -
  have "\<not> isLoading s"
    using assms(1) by (auto simp: regenerateTask_def split: option.splits if_splits)
  then show ?thesis
    using assms by (simp add: handleRegenerate_def runGenerativeTask_def updateHistory_def Let_def)
qed

text \<open>
  Claim C5, evaluated on the code. With two entries, the cursor on the second and a
  filter recorded, a successful regenerate issues the filter call on the first entry. The
  claim says the result is the state reached by moving the cursor back and pushing:
  two entries, cursor 1. The code leaves three entries with the cursor on the third.
\<close>

theorem regenerate_success_keeps_current_entry:
  "regenerateTask filteredOnce
     = Some (GenerateFilteredImage (Some (photo ''upload'')) ''warm tones'')
   \<and> history (handleRegenerate (decodeTo (photo ''edit-2'')) alwaysResolves filteredOnce)
       = [photo ''upload'', photo ''edit-1'', photo ''edit-2'']
   \<and> historyIndex (handleRegenerate (decodeTo (photo ''edit-2'')) alwaysResolves filteredOnce) = 2
   \<and> history (apply_op (filteredOnce\<lparr>historyIndex := historyIndex filteredOnce - 1\<rparr>)
                (Push (photo ''edit-2'')))
       = [photo ''upload'', photo ''edit-2'']
   \<and> historyIndex (apply_op (filteredOnce\<lparr>historyIndex := historyIndex filteredOnce - 1\<rparr>)
                     (Push (photo ''edit-2''))) = 1"
  by (simp add: filteredOnce_def regenerateTask_def handleRegenerate_def runGenerativeTask_def
        updateHistory_def js_slice0_def js_index_def decodeTo_def alwaysResolves_def Let_def)

text \<open>
  Claim C10. When a regenerate is issued (\<open>regenerateTask\<close> builds a task, which by
  \<open>regenerateTask_None_iff\<close> means an action is recorded, the cursor is at least 1 and
  nothing is loading) and the promise of the call rejects, the entries are unchanged and
  the cursor stays one lower than before, so the current entry is the one that preceded
  the entry that was current.
\<close>

theorem regenerate_failure_moves_cursor:
  assumes "regenerateTask s = Some task" and "service task = Rejected e"
  shows "history (handleRegenerate toFile service s) = history s
       \<and> historyIndex (handleRegenerate toFile service s) = historyIndex s - 1
       \<and> currentImageFile (handleRegenerate toFile service s)
           = js_index (history s) (historyIndex s - 1)
       \<and> error (handleRegenerate toFile service s) = Some (message_or unknownErrorMessage e)"
  using assms
  by (simp add: handleRegenerate_def runGenerativeTask_def currentImageFile_def Let_def)

theorem regenerate_failure_moves_cursor_witness:
  "regenerateTask filteredOnce
     = Some (GenerateFilteredImage (Some (photo ''upload'')) ''warm tones'')
   \<and> alwaysRejects (GenerateFilteredImage (Some (photo ''upload'')) ''warm tones'')
       = Rejected (JsError ''quota exceeded'')
   \<and> history (handleRegenerate (decodeTo (photo ''edit-2'')) alwaysRejects filteredOnce)
       = [photo ''upload'', photo ''edit-1'']
   \<and> historyIndex (handleRegenerate (decodeTo (photo ''edit-2'')) alwaysRejects filteredOnce) = 0
   \<and> currentImageFile (handleRegenerate (decodeTo (photo ''edit-2'')) alwaysRejects filteredOnce)
       = Some (photo ''upload'')
   \<and> currentImageFile filteredOnce = Some (photo ''edit-1'')"
proof -
  have t: "regenerateTask filteredOnce
             = Some (GenerateFilteredImage (Some (photo ''upload'')) ''warm tones'')"
    by (simp add: filteredOnce_def regenerateTask_def js_index_def)
  have r: "alwaysRejects (GenerateFilteredImage (Some (photo ''upload'')) ''warm tones'')
             = Rejected (JsError ''quota exceeded'')"
    by (simp add: alwaysRejects_def)
  show ?thesis
    using t r
      regenerate_failure_moves_cursor
        [where s = filteredOnce and service = alwaysRejects
           and toFile = "decodeTo (photo ''edit-2'')", OF t r]
    by (simp add: filteredOnce_def js_index_def currentImageFile_def)
qed


section \<open>Properties of the upload handlers\<close>

text \<open>The start-screen path rejects an oversized file: only the error cell changes.\<close>

lemma handleLocalFileSelect_rejects:
  assumes "file_size file > MAX_FILE_SIZE_BYTES"
  shows "handleLocalFileSelect (Some (file # rest)) s = s\<lparr>error := Some sizeErrorMessage\<rparr>"
  using assms by (simp add: handleLocalFileSelect_def)

text \<open>
  Claim C8, evaluated on the code. The replace-image path takes a PNG of 13 MB: no error
  is set and the file becomes the history. The start-screen path rejects the same file.
\<close>

theorem replace_image_accepts_oversized_file:
  "file_size bigPhoto > MAX_FILE_SIZE_BYTES
   \<and> history (handleFileInputChange (Some [bigPhoto]) filteredOnce) = [bigPhoto]
   \<and> historyIndex (handleFileInputChange (Some [bigPhoto]) filteredOnce) = 0
   \<and> error (handleFileInputChange (Some [bigPhoto]) filteredOnce) = None
   \<and> history (handleLocalFileSelect (Some [bigPhoto]) filteredOnce) = history filteredOnce
   \<and> error (handleLocalFileSelect (Some [bigPhoto]) filteredOnce) = Some sizeErrorMessage"
  by (simp add: bigPhoto_def MAX_FILE_SIZE_BYTES_def MAX_FILE_SIZE_MB_def filteredOnce_def
        handleFileInputChange_def handleLocalFileSelect_def js_startsWith_def
        updateHistory_def mountState_def js_slice0_def)


section \<open>Properties of the fallback prompt\<close>

lemma prefixed_policy:
  "followsFallbackPolicy True (ip, pre @ prompt) (ip, prompt)
     (callImageEditingModel hae (api 0 (ip, pre @ prompt)) action)
     (callImageEditingModel hae (api 1 (ip, prompt)) (action @ '' (fallback)''))
     (prefixedGeneration pre action hae api (Inr ip) prompt)"
  by (simp add: followsFallbackPolicy_def prefixedGeneration_def Let_def split: settled.splits)

lemma decade_policy:
  assumes "matchImageDataUrl url = Some ip"
  shows "followsFallbackPolicy (extractDecade prompt \<noteq> None) (ip, prompt)
     (ip, getFallbackPrompt (case extractDecade prompt of Some d \<Rightarrow> d | None \<Rightarrow> []))
     (callImageEditingModel hae (api 0 (ip, prompt)) (decadeAction (extractDecade prompt)))
     (callImageEditingModel hae
        (api 1 (ip, getFallbackPrompt (case extractDecade prompt of Some d \<Rightarrow> d | None \<Rightarrow> [])))
        (decadeAction (extractDecade prompt) @ '' (fallback)''))
     (generateDecadeImage hae api url prompt)"
  using assms
  by (auto simp: followsFallbackPolicy_def generateDecadeImage_def Let_def
        split: settled.splits option.splits)

text \<open>A response made of text only is the text-instead-of-image failure.\<close>

lemma text_response_is_text_failure:
  assumes "responseParts cand = Some ps" and "firstInlineData ps = None"
    and "truthy_string (part_text (hd ps))"
  shows "callImageEditingModel hae (ApiResponds cand) action
           = Rejected (JsError textInsteadOfImageMessage)"
    and "isTextInsteadOfImage (JsError textInsteadOfImageMessage)"
  using assms
  by (simp_all add: callImageEditingModel_def rethrowOrWrap_def isTextInsteadOfImage_def
        textInsteadOfImageMessage_def)

text \<open>
  Claim C9, as the code has it. Once the image part is there, each of the four prefixed
  generators sends the primary prompt and re-issues the request once, with the bare
  prompt, exactly when the first attempt fails with the text-instead-of-image error;
  any other settlement of the first attempt is the settlement of the call, after one
  request. \<open>generateDecadeImage\<close> does the same with its fallback prompt only when
  the prompt names a decade; without one the text error is passed on after one request.
\<close>

theorem fallback_reissued_once_on_text_failure:
  "followsFallbackPolicy True (ip, ''Apply this filter: '' @ prompt) (ip, prompt)
     (callImageEditingModel hae (api 0 (ip, ''Apply this filter: '' @ prompt)) filterLabel)
     (callImageEditingModel hae (api 1 (ip, prompt)) (filterLabel @ '' (fallback)''))
     (generateFilteredImage hae api (Inr ip) prompt)
   \<and> followsFallbackPolicy True (ip, ''Apply this artistic style: '' @ prompt) (ip, prompt)
     (callImageEditingModel hae (api 0 (ip, ''Apply this artistic style: '' @ prompt)) styleLabel)
     (callImageEditingModel hae (api 1 (ip, prompt)) (styleLabel @ '' (fallback)''))
     (generateStyledImage hae api (Inr ip) prompt)
   \<and> followsFallbackPolicy True (ip, ''Apply this adjustment: '' @ prompt) (ip, prompt)
     (callImageEditingModel hae (api 0 (ip, ''Apply this adjustment: '' @ prompt)) adjustLabel)
     (callImageEditingModel hae (api 1 (ip, prompt)) (adjustLabel @ '' (fallback)''))
     (generateAdjustedImage hae api (Inr ip) prompt)
   \<and> followsFallbackPolicy True (ip, ''Apply this texture: '' @ prompt) (ip, prompt)
     (callImageEditingModel hae (api 0 (ip, ''Apply this texture: '' @ prompt)) textureLabel)
     (callImageEditingModel hae (api 1 (ip, prompt)) (textureLabel @ '' (fallback)''))
     (generateTexturedImage hae api (Inr ip) prompt)
   \<and> (matchImageDataUrl url = Some ip \<longrightarrow>
       followsFallbackPolicy (extractDecade prompt \<noteq> None) (ip, prompt)
         (ip, getFallbackPrompt (case extractDecade prompt of Some d \<Rightarrow> d | None \<Rightarrow> []))
         (callImageEditingModel hae (api 0 (ip, prompt)) (decadeAction (extractDecade prompt)))
         (callImageEditingModel hae
            (api 1 (ip, getFallbackPrompt (case extractDecade prompt of Some d \<Rightarrow> d | None \<Rightarrow> [])))
            (decadeAction (extractDecade prompt) @ '' (fallback)''))
         (generateDecadeImage hae api url prompt))"
  unfolding generateFilteredImage_def generateStyledImage_def generateAdjustedImage_def
    generateTexturedImage_def
proof (intro conjI impI)
  assume "matchImageDataUrl url = Some ip"
  then show "followsFallbackPolicy (extractDecade prompt \<noteq> None) (ip, prompt)
         (ip, getFallbackPrompt (case extractDecade prompt of Some d \<Rightarrow> d | None \<Rightarrow> []))
         (callImageEditingModel hae (api 0 (ip, prompt)) (decadeAction (extractDecade prompt)))
         (callImageEditingModel hae
            (api 1 (ip, getFallbackPrompt (case extractDecade prompt of Some d \<Rightarrow> d | None \<Rightarrow> [])))
            (decadeAction (extractDecade prompt) @ '' (fallback)''))
         (generateDecadeImage hae api url prompt)"
    by (rule decade_policy)
qed (rule prefixed_policy)+

text \<open>
  The policy at work on the prompt of the decade page: the model answers with text, the
  prompt names the 1950s, and the second request carries the fallback prompt.
\<close>

theorem fallback_reissued_once_on_text_failure_witness:
  "matchImageDataUrl uploadedUrl = Some (''image/png'', ''AAAA'')
   \<and> extractDecade fiftiesPrompt = Some ''1950s''
   \<and> requests (generateDecadeImage wrapMessage textOnly uploadedUrl fiftiesPrompt)
       = [((''image/png'', ''AAAA''), fiftiesPrompt),
          ((''image/png'', ''AAAA''), getFallbackPrompt ''1950s'')]
   \<and> requests (generateFilteredImage wrapMessage textOnly (Inr (''image/png'', ''AAAA''))
                 fiftiesPrompt)
       = [((''image/png'', ''AAAA''), ''Apply this filter: '' @ fiftiesPrompt),
          ((''image/png'', ''AAAA''), fiftiesPrompt)]"
proof -
  have m: "matchImageDataUrl uploadedUrl = Some (''image/png'', ''AAAA'')"
    by (simp add: uploadedUrl_def matchImageDataUrl_def js_startsWith_def isWordChar_def
          noLineTerminator_def)
  have d: "extractDecade fiftiesPrompt = Some ''1950s''"
    by (simp add: fiftiesPrompt_def isDigit_def)
  have t: "callImageEditingModel wrapMessage (textOnly k req) action
             = Rejected (JsError textInsteadOfImageMessage)" for k req action
    by (simp add: callImageEditingModel_def textOnly_def responseParts_def truthy_string_def
          rethrowOrWrap_def textInsteadOfImageMessage_def)
  have e: "isTextInsteadOfImage (JsError textInsteadOfImageMessage)"
    by (simp add: isTextInsteadOfImage_def textInsteadOfImageMessage_def)
  show ?thesis
    using m d
      fallback_reissued_once_on_text_failure
        [where ip = "(''image/png'', ''AAAA'')" and prompt = fiftiesPrompt
           and hae = wrapMessage and api = textOnly and url = uploadedUrl]
    by (simp add: followsFallbackPolicy_def t e)
qed

text \<open>
  Claim C9 as stated fails for \<open>generateDecadeImage\<close>: on a prompt that names no decade
  the first attempt fails with the text-instead-of-image error and no second request is
  sent; the error is the settlement of the call.
\<close>

theorem decade_without_token_not_reissued:
  "callImageEditingModel wrapMessage (textOnly 0 ((''image/png'', ''AAAA''), retroPrompt))
       (decadeAction (extractDecade retroPrompt))
     = Rejected (JsError textInsteadOfImageMessage)
   \<and> isTextInsteadOfImage (JsError textInsteadOfImageMessage)
   \<and> requests (generateDecadeImage wrapMessage textOnly uploadedUrl retroPrompt)
       = [((''image/png'', ''AAAA''), retroPrompt)]
   \<and> outcome (generateDecadeImage wrapMessage textOnly uploadedUrl retroPrompt)
       = Rejected (JsError textInsteadOfImageMessage)"
proof -
  have m: "matchImageDataUrl uploadedUrl = Some (''image/png'', ''AAAA'')"
    by (simp add: uploadedUrl_def matchImageDataUrl_def js_startsWith_def isWordChar_def
          noLineTerminator_def)
  have d: "extractDecade retroPrompt = None"
    by (simp add: retroPrompt_def isDigit_def)
  have t: "callImageEditingModel wrapMessage (textOnly k req) action
             = Rejected (JsError textInsteadOfImageMessage)" for k req action
    by (simp add: callImageEditingModel_def textOnly_def responseParts_def truthy_string_def
          rethrowOrWrap_def textInsteadOfImageMessage_def)
  have e: "isTextInsteadOfImage (JsError textInsteadOfImageMessage)"
    by (simp add: isTextInsteadOfImage_def textInsteadOfImageMessage_def)
  show ?thesis
    by (simp add: generateDecadeImage_def m d t e)
qed


section \<open>Properties of a BeatSyncPage run\<close>

lemma length_launchWorkers: "length (fst (launchWorkers n q)) = n"
proof (induction n arbitrary: q)
  case 0 then show ?case by simp
next
  case (Suc n)
  obtain w q' where t: "workerTurn q = (w, q')" by (cases "workerTurn q")
  obtain ws q'' where l: "launchWorkers n q' = (ws, q'')" by (cases "launchWorkers n q'")
  from Suc [of q'] l have "length ws = n" by simp
  with t l show ?case by simp
qed

lemma length_inFlight: "length (inFlight ws) \<le> length ws"
  by (induction ws) (auto simp: inFlight_def split: worker.splits)

lemma bs_step_length: "bs_step s ev = Some s' \<Longrightarrow> length (workers s') = length (workers s)"
  by (cases ev) (auto simp: Let_def split: if_splits worker.splits prod.splits)

lemma bs_run_length: "bs_run s evs = Some s' \<Longrightarrow> length (workers s') = length (workers s)"
proof (induction evs arbitrary: s)
  case Nil then show ?case by simp
next
  case (Cons ev evs)
  then show ?case by (auto split: option.splits dest: bs_step_length)
qed

lemma beatsync_at_most_three_in_flight:
  assumes "bs_run (handleGenerate imageCount stylePrompts) evs = Some s"
  shows "length (inFlight (workers s)) \<le> concurrencyLimit"
proof -
  obtain ws q where l: "launchWorkers concurrencyLimit (zip [0..<length stylePrompts] stylePrompts) = (ws, q)"
    by (cases "launchWorkers concurrencyLimit (zip [0..<length stylePrompts] stylePrompts)")
  have "length ws = concurrencyLimit"
    using length_launchWorkers [of concurrencyLimit "zip [0..<length stylePrompts] stylePrompts"] l
    by simp
  then have "length (workers (handleGenerate imageCount stylePrompts)) = concurrencyLimit"
    using l by (simp add: handleGenerate_def)
  with bs_run_length [OF assms] have "length (workers s) = concurrencyLimit" by simp
  with length_inFlight [of "workers s"] show ?thesis by simp
qed

lemma set_numPut: "set (numPut k v xs) \<subseteq> insert (k, v) (set xs)"
  by (induction xs) (auto split: if_splits)

lemma fst_set_numPut: "fst ` set (numPut k v xs) = insert k (fst ` set xs)"
  by (induction k v xs rule: numPut.induct) (simp_all add: insert_commute)

lemma sorted_numPut:
  "sorted_wrt (<) (map fst xs) \<Longrightarrow> sorted_wrt (<) (map fst (numPut k v xs))"
proof (induction xs)
  case Nil then show ?case by simp
next
  case (Cons x xs)
  obtain k' v' where x: "x = (k', v')" by (cases x)
  show ?case
  proof (cases "k = k'")
    case True with Cons.prems x show ?thesis by auto
  next
    case False
    show ?thesis
    proof (cases "k < k'")
      case True with Cons.prems x False show ?thesis by auto
    next
      case nlt: False
      have "\<forall>j \<in> fst ` set (numPut k v xs). k' < j"
        using Cons.prems x False nlt by (auto simp: fst_set_numPut)
      then show ?thesis using Cons x False nlt by auto
    qed
  qed
qed

lemma numPut_key:
  "sorted_wrt (<) (map fst xs) \<Longrightarrow> (k, w) \<in> set (numPut k v xs) \<Longrightarrow> w = v"
proof (induction xs)
  case Nil then show ?case by simp
next
  case (Cons x xs)
  obtain k' v' where x: "x = (k', v')" by (cases x)
  show ?case
  proof (cases "k = k'")
    case True
    with Cons.prems x show ?thesis by (auto simp: image_iff) 
  next
    case False
    show ?thesis
    proof (cases "k < k'")
      case True with Cons.prems x False show ?thesis by (auto simp: image_iff)
    next
      case nlt: False
      with Cons x False show ?thesis by auto
    qed
  qed
qed

lemma in_set_update_other: "x \<in> set ws \<Longrightarrow> ws ! w \<noteq> x \<Longrightarrow> x \<in> set (ws[w := y])"
  by (metis in_set_conv_nth length_list_update nth_list_update_neq)

lemma in_set_update_old: "x \<in> set (ws[w := y]) \<Longrightarrow> x \<noteq> y \<Longrightarrow> x \<in> set ws"
  by (metis in_set_conv_nth length_list_update nth_list_update nth_list_update_neq)

lemma settledImage_not_pending: "img_status (settledImage r) \<noteq> Pending"
  by (cases r) (simp_all add: settledImage_def)


lemma launchWorkers_cover:
  "launchWorkers n q = (ws, q') \<Longrightarrow>
     fst ` set q = set (inFlight ws) \<union> fst ` set q'
     \<and> (Returned \<in> set ws \<longrightarrow> q' = []) \<and> Resuming \<notin> set ws"
proof (induction n arbitrary: q ws q')
  case 0
  then show ?case by (simp add: inFlight_def)
next
  case (Suc n)
  obtain w q1 where t: "workerTurn q = (w, q1)" by (cases "workerTurn q")
  obtain ws1 q2 where l: "launchWorkers n q1 = (ws1, q2)" by (cases "launchWorkers n q1")
  from Suc.prems t l have ws: "ws = w # ws1" and q': "q' = q2" by simp_all
  note ih = Suc.IH [OF l]
  have head: "fst ` set q = set (inFlight [w]) \<union> fst ` set q1"
    using t by (auto simp: workerTurn_def inFlight_def split: list.splits)
  have a: "fst ` set q = set (inFlight ws) \<union> fst ` set q'"
    using head ih ws q' by (auto simp: inFlight_def)
  have b: "Returned \<in> set ws \<longrightarrow> q' = []"
  proof
    assume r: "Returned \<in> set ws"
    show "q' = []"
    proof (cases "w = Returned")
      case True
      then have "q1 = []" using t by (auto simp: workerTurn_def split: list.splits)
      then have "q2 = []" using ih by simp
      then show ?thesis using q' by simp
    next
      case False
      with r ws have "Returned \<in> set ws1" by auto
      then show ?thesis using ih q' by simp
    qed
  qed
  have "w \<noteq> Resuming" using t by (auto simp: workerTurn_def split: list.splits)
  then have c: "Resuming \<notin> set ws" using ws ih by simp
  from a b c show ?case by simp
qed

lemma Awaiting_inFlight: "Awaiting i \<in> set ws \<longleftrightarrow> i \<in> set (inFlight ws)"
  by (induction ws) (auto simp: inFlight_def split: worker.splits)

lemma bs_inv_start:
  assumes "imageCount \<le> length stylePrompts"
  shows "bs_inv (handleGenerate imageCount stylePrompts)"
proof -
  let ?q0 = "zip [0..<length stylePrompts] stylePrompts"
  obtain ws q where l: "launchWorkers concurrencyLimit ?q0 = (ws, q)"
    by (cases "launchWorkers concurrencyLimit ?q0")
  have s: "handleGenerate imageCount stylePrompts
             = \<lparr>promptsQueue = q, workers = ws,
                generatedImages = map (\<lambda>i. (i, pendingImage)) [0..<imageCount]\<rparr>"
    using l by (simp add: handleGenerate_def)
  have keys: "fst ` set ?q0 = {0..<length stylePrompts}"
    by (simp add: map_fst_zip flip: set_map)
  have cover: "fst ` set ?q0 = set (inFlight ws) \<union> fst ` set q"
    using launchWorkers_cover [OF l] by simp
  have ret: "Returned \<in> set ws \<longrightarrow> q = []"
    using launchWorkers_cover [OF l] by simp
  have srt: "sorted_wrt (<) (map fst (map (\<lambda>i. (i, pendingImage)) [0..<imageCount]))"
    by (simp add: comp_def)
  have pend: "i \<in> fst ` set q \<or> Awaiting i \<in> set ws" if "i < imageCount" for i
  proof -
    from that assms have "i \<in> {0..<length stylePrompts}" by simp
    with keys cover have "i \<in> set (inFlight ws) \<union> fst ` set q" by simp
    then show ?thesis by (auto simp: Awaiting_inFlight)
  qed
  show ?thesis unfolding s bs_inv_def using srt pend ret by auto
qed

lemma bs_inv_step:
  assumes "bs_inv s" and "bs_step s ev = Some s'"
  shows "bs_inv s'"
proof (cases ev)
  case (Settles w styled)
  with assms(2) obtain index where w: "w < length (workers s)" and a: "workers s ! w = Awaiting index"
    and s': "s' = s\<lparr>workers := (workers s)[w := Resuming],
                    generatedImages := numPut index (settledImage (fst (generateWithRetry styled 0 1))) (generatedImages s)\<rparr>"
    by (auto split: if_splits worker.splits)
  let ?v = "settledImage (fst (generateWithRetry styled 0 1))"
  have srt: "sorted_wrt (<) (map fst (generatedImages s))" using assms(1) by (simp add: bs_inv_def)
  have 1: "sorted_wrt (<) (map fst (generatedImages s'))" using srt s' by (simp add: sorted_numPut)
  have 2: "i \<in> fst ` set (promptsQueue s') \<or> Awaiting i \<in> set (workers s')"
    if m: "(i, img) \<in> set (generatedImages s')" and p: "img_status img = Pending" for i img
  proof -
    have ne: "img \<noteq> ?v" using p settledImage_not_pending [of "fst (generateWithRetry styled 0 1)"] by auto
    from m s' have "(i, img) \<in> set (numPut index ?v (generatedImages s))" by simp
    then have old: "(i, img) \<in> set (generatedImages s)" using set_numPut [of index ?v "generatedImages s"] ne by auto
    have "i \<noteq> index"
    proof
      assume "i = index"
      with m s' have "(index, img) \<in> set (numPut index ?v (generatedImages s))" by simp
      from numPut_key [OF srt this] ne show False by simp
    qed
    from assms(1) old p have "i \<in> fst ` set (promptsQueue s) \<or> Awaiting i \<in> set (workers s)"
      by (auto simp: bs_inv_def)
    then show ?thesis
    proof
      assume "i \<in> fst ` set (promptsQueue s)" then show ?thesis using s' by simp
    next
      assume "Awaiting i \<in> set (workers s)"
      moreover have "workers s ! w \<noteq> Awaiting i" using a \<open>i \<noteq> index\<close> by simp
      ultimately have "Awaiting i \<in> set ((workers s)[w := Resuming])" by (rule in_set_update_other)
      then show ?thesis using s' by simp
    qed
  qed
  have 3: "Returned \<in> set (workers s') \<longrightarrow> promptsQueue s' = []"
  proof
    assume "Returned \<in> set (workers s')"
    then have "Returned \<in> set ((workers s)[w := Resuming])" using s' by simp
    then have "Returned \<in> set (workers s)" by (rule in_set_update_old) simp
    then show "promptsQueue s' = []" using assms(1) s' by (simp add: bs_inv_def)
  qed
  show ?thesis unfolding bs_inv_def using 1 2 3 by auto
next
  case (Resumes w)
  with assms(2) have w: "w < length (workers s)" and r: "workers s ! w = Resuming"
    by (auto split: if_splits)
  obtain st q where t: "workerTurn (promptsQueue s) = (st, q)" by (cases "workerTurn (promptsQueue s)")
  with assms(2) Resumes w r have s': "s' = s\<lparr>promptsQueue := q, workers := (workers s)[w := st]\<rparr>"
    by simp
  have 1: "sorted_wrt (<) (map fst (generatedImages s'))" using assms(1) s' by (simp add: bs_inv_def)
  show ?thesis
  proof (cases "promptsQueue s")
    case Nil
    with t have st: "st = Returned" and q: "q = []" by (simp_all add: workerTurn_def)
    have 2: "i \<in> fst ` set (promptsQueue s') \<or> Awaiting i \<in> set (workers s')"
      if m: "(i, img) \<in> set (generatedImages s')" and p: "img_status img = Pending" for i img
    proof -
      from assms(1) m p s' Nil have "Awaiting i \<in> set (workers s)" by (auto simp: bs_inv_def)
      moreover have "workers s ! w \<noteq> Awaiting i" using r by simp
      ultimately have "Awaiting i \<in> set ((workers s)[w := st])" by (rule in_set_update_other)
      then show ?thesis using s' by simp
    qed
    show ?thesis unfolding bs_inv_def using 1 2 s' q by auto
  next
    case (Cons x rest)
    obtain index prompt where x: "x = (index, prompt)" by (cases x)
    with t Cons have st: "st = Awaiting index" and q: "q = rest" by (simp_all add: workerTurn_def)
    have 2: "i \<in> fst ` set (promptsQueue s') \<or> Awaiting i \<in> set (workers s')"
      if m: "(i, img) \<in> set (generatedImages s')" and p: "img_status img = Pending" for i img
    proof -
      from assms(1) m p s' have "i \<in> fst ` set (promptsQueue s) \<or> Awaiting i \<in> set (workers s)"
        by (auto simp: bs_inv_def)
      then show ?thesis
      proof
        assume "i \<in> fst ` set (promptsQueue s)"
        then have "i = index \<or> i \<in> fst ` set rest" using Cons x by auto
        then show ?thesis
        proof
          assume "i = index"
          then have "Awaiting i \<in> set ((workers s)[w := st])" using st w by (simp add: set_update_memI)
          then show ?thesis using s' by simp
        next
          assume "i \<in> fst ` set rest" then show ?thesis using s' q by simp
        qed
      next
        assume "Awaiting i \<in> set (workers s)"
        moreover have "workers s ! w \<noteq> Awaiting i" using r by simp
        ultimately have "Awaiting i \<in> set ((workers s)[w := st])" by (rule in_set_update_other)
        then show ?thesis using s' by simp
      qed
    qed
    have 3: "Returned \<in> set (workers s') \<longrightarrow> promptsQueue s' = []"
    proof
      assume "Returned \<in> set (workers s')"
      then have "Returned \<in> set ((workers s)[w := st])" using s' by simp
      then have "Returned \<in> set (workers s)" by (rule in_set_update_old) (simp add: st)
      then have "promptsQueue s = []" using assms(1) by (simp add: bs_inv_def)
      with Cons show "promptsQueue s' = []" by simp
    qed
    show ?thesis unfolding bs_inv_def using 1 2 3 by auto
  qed
qed

lemma bs_inv_run: "bs_inv s \<Longrightarrow> bs_run s evs = Some s' \<Longrightarrow> bs_inv s'"
proof (induction evs arbitrary: s)
  case Nil then show ?case by simp
next
  case (Cons ev evs)
  then show ?case by (auto split: option.splits dest: bs_inv_step)
qed

lemma allReturned_set: "allReturned ws \<Longrightarrow> x \<in> set ws \<Longrightarrow> x = Returned"
  by (auto simp: allReturned_def list_all_iff)

lemma beatsync_all_terminal_on_return:
  assumes "imageCount \<le> length stylePrompts"
    and "bs_run (handleGenerate imageCount stylePrompts) evs = Some s"
    and "allReturned (workers s)"
  shows "list_all (\<lambda>(i, img). isTerminal img) (generatedImages s)"
proof -
  have inv: "bs_inv s" using bs_inv_run [OF bs_inv_start [OF assms(1)] assms(2)] .
  have len: "length (workers s) = concurrencyLimit"
    using bs_run_length [OF assms(2)] length_launchWorkers [of concurrencyLimit "zip [0..<length stylePrompts] stylePrompts"]
    by (simp add: handleGenerate_def Let_def split: prod.splits)
  then have "workers s \<noteq> []" by (auto simp: concurrencyLimit_def)
  then obtain x where "x \<in> set (workers s)" by (cases "workers s") auto
  with assms(3) have "Returned \<in> set (workers s)" using allReturned_set by blast
  with inv have q: "promptsQueue s = []" by (simp add: bs_inv_def)
  have "isTerminal img" if m: "(i, img) \<in> set (generatedImages s)" for i img
  proof (rule ccontr)
    assume "\<not> isTerminal img"
    then have "img_status img = Pending" by (cases "img_status img") (simp_all add: isTerminal_def)
    with inv m q have "Awaiting i \<in> set (workers s)" by (auto simp: bs_inv_def)
    with assms(3) show False using allReturned_set by fastforce
  qed
  then show ?thesis by (auto simp: list_all_iff)
qed

text \<open>A run of two prompts, the second of which fails on both calls.\<close>

lemma beatsync_two_prompts_example:
  "(case bs_run (handleGenerate 2 [''anime'', ''film noir''])
           [Settles 1 alwaysFails, Settles 0 failsThenSucceeds, Resumes 0, Resumes 1] of
      Some s \<Rightarrow> allReturned (workers s)
                \<and> map (img_status \<circ> snd) (generatedImages s) = [Done, Error]
    | None \<Rightarrow> False)"
  by (simp add: handleGenerate_def concurrencyLimit_def workerTurn_def eval_nat_numeral
        pendingImage_def alwaysFails_def failsThenSucceeds_def imageFails_def imageOk_def
        settledImage_def allReturned_def)


section \<open>Properties of a PastForwardPage run\<close>

text \<open>
  Claim C1, evaluated on the code. When the synchronous part of \<open>handleGenerateClick\<close>
  is over, four generations are in flight: two started by \<open>map(processQueue)\<close> and one by
  each of the two loops. The limit of the handler is 2. On BeatSyncPage the bound holds
  (\<open>beatsync_at_most_three_in_flight\<close>).
\<close>

theorem pastforward_four_in_flight:
  "decadesInFlight handleGenerateClick = [''1950s'', ''1960s'', ''1970s'', ''1980s'']
   \<and> length (decadesInFlight handleGenerateClick) = 4 \<and> decadeLimit = 2"
  by (simp add: handleGenerateClick_def decadeLimit_def DECADES_def directCall_def
        processQueue_def startDecade_def loopTurn_def decadesInFlight_def inFlight_def
        eval_nat_numeral pendingImage_def)

text \<open>
  Claim C2, evaluated on the code. The two loops work off the four remaining decades and
  return while the two tasks started first have not settled: the handler shows the
  results with the entries of the 1950s and the 1960s still pending. On BeatSyncPage
  every entry is terminal when the workers have returned
  (\<open>beatsync_all_terminal_on_return\<close>).
\<close>

theorem pastforward_results_shown_with_pending:
  "(case pf_run handleGenerateClick loopsFinishFirst of
      Some s \<Rightarrow> resultsShown s \<and> unawaited s = [''1950s'', ''1960s'']
                \<and> map_of (decadeImages s) ''1950s'' = Some pendingImage
                \<and> map_of (decadeImages s) ''1960s'' = Some pendingImage
                \<and> \<not> isTerminal pendingImage
    | None \<Rightarrow> False)"
  by (simp add: handleGenerateClick_def decadeLimit_def DECADES_def directCall_def
        processQueue_def startDecade_def loopTurn_def eval_nat_numeral pendingImage_def
        imageOk_def settledImage_def resultsShown_def allReturned_def loopsFinishFirst_def
        isTerminal_def)


section \<open>Properties of the retry wrapper\<close>

text \<open>
  Claim C7. With the default of one retry: a first call that fails followed by a retry
  that succeeds gives the status \<open>done\<close> with the URL of the retry; two failures give
  the status \<open>error\<close>, with the message of the second; and in every case at most two
  calls of \<open>generateStyledImage\<close> are made, that is, at most one retry.
\<close>

theorem retry_once:
  "(styled 0 = Rejected e1 \<and> styled 1 = Resolved u \<longrightarrow>
      settledImage (fst (generateWithRetry styled 0 1))
        = \<lparr>img_status = Done, img_url = Some u, img_error = None\<rparr>
      \<and> snd (generateWithRetry styled 0 1) = 2)
   \<and> (styled 0 = Rejected e1 \<and> styled 1 = Rejected e2 \<longrightarrow>
      settledImage (fst (generateWithRetry styled 0 1))
        = \<lparr>img_status = Error, img_url = None,
           img_error = Some (message_or ''An unknown error occurred.'' e2)\<rparr>
      \<and> snd (generateWithRetry styled 0 1) = 2)
   \<and> snd (generateWithRetry styled 0 1) \<le> 2"
  by (auto simp: settledImage_def split: settled.splits)

theorem retry_once_witness:
  "failsThenSucceeds 0 = Rejected (JsError ''quota exceeded'')
   \<and> failsThenSucceeds 1 = Resolved ''data:image/png;base64,BBBB''
   \<and> settledImage (fst (generateWithRetry failsThenSucceeds 0 1))
       = \<lparr>img_status = Done, img_url = Some ''data:image/png;base64,BBBB'', img_error = None\<rparr>
   \<and> snd (generateWithRetry failsThenSucceeds 0 1) = 2
   \<and> alwaysFails 0 = Rejected (JsError ''quota exceeded'')
   \<and> alwaysFails 1 = Rejected (JsError ''quota exceeded'')
   \<and> img_status (settledImage (fst (generateWithRetry alwaysFails 0 1))) = Error
   \<and> snd (generateWithRetry alwaysFails 0 1) = 2"
proof -
  have f0: "failsThenSucceeds 0 = Rejected (JsError ''quota exceeded'')"
    by (simp add: failsThenSucceeds_def imageFails_def)
  have f1: "failsThenSucceeds 1 = Resolved ''data:image/png;base64,BBBB''"
    by (simp add: failsThenSucceeds_def imageOk_def)
  have a: "alwaysFails k = Rejected (JsError ''quota exceeded'')" for k
    by (simp add: alwaysFails_def imageFails_def)
  show ?thesis
    using f0 f1 a [of 0] a [of 1]
      retry_once [of failsThenSucceeds "JsError ''quota exceeded''"
                     "''data:image/png;base64,BBBB''" "JsError ''quota exceeded''"]
      retry_once [of alwaysFails "JsError ''quota exceeded''"
                     "''data:image/png;base64,BBBB''" "JsError ''quota exceeded''"]
    by simp
qed


section \<open>Properties of the closing effect\<close>

text \<open>A resolved call of the model is a data URL, never the empty string.\<close>

lemma firstInlineData_nonempty: "firstInlineData ps = Some u \<Longrightarrow> u \<noteq> []"
  by (induction ps) (auto split: option.splits)

lemma callImageEditingModel_resolved_nonempty:
  "callImageEditingModel hae out action = Resolved u \<Longrightarrow> u \<noteq> []"
  by (auto simp: callImageEditingModel_def rethrowOrWrap_def
        split: api_outcome.splits option.splits thrown.splits if_splits
        dest: firstInlineData_nonempty)

lemma settledImage_done_url:
  "u \<noteq> [] \<Longrightarrow> img_status (settledImage (Resolved u)) = Done
     \<and> truthy_string (img_url (settledImage (Resolved u)))"
  by (simp add: settledImage_def truthy_string_def)

lemma filter_done_urls:
  "doneHaveUrls vals \<Longrightarrow>
   map (\<lambda>img. case img_url img of Some u \<Rightarrow> u | None \<Rightarrow> [])
     (filter (\<lambda>img. img_status img = Done \<and> truthy_string (img_url img)) vals)
   = successfulArtifacts vals"
  by (induction vals)
     (auto simp: doneHaveUrls_def successfulArtifacts_def truthy_string_def split: option.splits)

lemma filter_done_same:
  "doneHaveUrls vals \<Longrightarrow>
   filter (\<lambda>img. img_status img = Done \<and> truthy_string (img_url img)) vals
   = filter (\<lambda>img. img_status img = Done) vals"
  by (induction vals) (auto simp: doneHaveUrls_def)

lemma filter_length_lt:
  "length (filter P xs) < length xs \<longleftrightarrow> (\<exists>x \<in> set xs. \<not> P x)"
  by (metis filter_id_conv length_filter_le nat_less_le length_filter_less filter_True)

lemma terminal_not_pending: "isTerminal img \<longleftrightarrow> img_status img \<noteq> Pending"
  by (cases "img_status img") (simp_all add: isTerminal_def)

text \<open>
  Every \<open>done\<close> entry of a run carries a URL that is not empty, as long as
  \<open>generateStyledImage\<close> resolves with such URLs, which it does.
\<close>

lemma generateWithRetry_resolved:
  "generateWithRetry styled k r = (Resolved u, n) \<Longrightarrow> \<exists>j. styled j = Resolved u"
proof (induction styled k r rule: generateWithRetry.induct)
  case (1 styled k retries)
  show ?case
  proof (cases "styled k")
    case (Resolved v)
    with "1.prems" have "v = u" by simp
    with Resolved show ?thesis by blast
  next
    case (Rejected e)
    show ?thesis
    proof (cases "retries > 0")
      case True
      with "1.prems" Rejected have "generateWithRetry styled (Suc k) (retries - 1) = (Resolved u, n)"
        by simp
      from "1.IH" [OF Rejected True this] show ?thesis .
    next
      case False
      with "1.prems" Rejected show ?thesis by simp
    qed
  qed
qed

lemma doneHaveUrls_numPut:
  assumes "doneHaveUrls (objectValues imgs)"
    and "img_status v = Done \<longrightarrow> truthy_string (img_url v)"
  shows "doneHaveUrls (objectValues (numPut k v imgs))"
proof -
  have "img_status img = Done \<longrightarrow> truthy_string (img_url img)"
    if "(i, img) \<in> set (numPut k v imgs)" for i img
  proof -
    from that set_numPut [of k v imgs] have "(i, img) = (k, v) \<or> (i, img) \<in> set imgs" by auto
    then show ?thesis using assms by (auto simp: doneHaveUrls_def objectValues_def list_all_iff)
  qed
  then show ?thesis by (auto simp: doneHaveUrls_def objectValues_def list_all_iff)
qed

lemma doneHaveUrls_step:
  assumes "doneHaveUrls (objectValues (generatedImages s))"
    and "bs_step s ev = Some s'"
    and "\<And>w styled k u. ev = Settles w styled \<Longrightarrow> styled k = Resolved u \<Longrightarrow> u \<noteq> []"
  shows "doneHaveUrls (objectValues (generatedImages s'))"
proof (cases ev)
  case (Settles w styled)
  let ?r = "fst (generateWithRetry styled 0 1)"
  have v: "img_status (settledImage ?r) = Done \<longrightarrow> truthy_string (img_url (settledImage ?r))"
  proof (cases ?r)
    case (Resolved u)
    then have "generateWithRetry styled 0 1 = (Resolved u, snd (generateWithRetry styled 0 1))"
      by (metis prod.collapse)
    then obtain j where "styled j = Resolved u" using generateWithRetry_resolved by blast
    with assms(3) Settles have "u \<noteq> []" by blast
    with Resolved show ?thesis by (simp add: settledImage_def truthy_string_def)
  next
    case (Rejected e)
    then show ?thesis by (simp add: settledImage_def)
  qed
  from assms(2) Settles obtain index where
    "generatedImages s' = numPut index (settledImage ?r) (generatedImages s)"
    by (auto split: if_splits worker.splits)
  with doneHaveUrls_numPut [OF assms(1) v] show ?thesis by simp
next
  case (Resumes w)
  with assms(2) have "generatedImages s' = generatedImages s"
    by (auto simp: Let_def split: if_splits prod.splits)
  with assms(1) show ?thesis by simp
qed

lemma doneHaveUrls_run:
  assumes "doneHaveUrls (objectValues (generatedImages s))"
    and "bs_run s evs = Some s'"
    and "\<And>w styled k u. Settles w styled \<in> set evs \<Longrightarrow> styled k = Resolved u \<Longrightarrow> u \<noteq> []"
  shows "doneHaveUrls (objectValues (generatedImages s'))"
  using assms
proof (induction evs arbitrary: s)
  case Nil then show ?case by simp
next
  case (Cons ev evs)
  from Cons.prems(2) obtain s1 where st: "bs_step s ev = Some s1" and rn: "bs_run s1 evs = Some s'"
    by (auto split: option.splits)
  have "doneHaveUrls (objectValues (generatedImages s1))"
    using Cons.prems(1) st
  proof (rule doneHaveUrls_step)
    fix w styled k u assume "ev = Settles w styled" "styled k = Resolved u"
    then show "u \<noteq> []" using Cons.prems(3) [of w styled k u] by simp
  qed
  then show ?case using rn
  proof (rule Cons.IH)
    fix w styled k u assume "Settles w styled \<in> set evs" "styled k = Resolved u"
    then show "u \<noteq> []" using Cons.prems(3) [of w styled k u] by simp
  qed
qed

lemma beatsync_done_entries_have_urls:
  assumes "bs_run (handleGenerate imageCount stylePrompts) evs = Some s"
    and "\<And>w styled k u. Settles w styled \<in> set evs \<Longrightarrow> styled k = Resolved u \<Longrightarrow> u \<noteq> []"
  shows "doneHaveUrls (objectValues (generatedImages s))"
proof -
  have "doneHaveUrls (objectValues (generatedImages (handleGenerate imageCount stylePrompts)))"
    by (auto simp: handleGenerate_def Let_def doneHaveUrls_def objectValues_def pendingImage_def
          list_all_iff split: prod.splits)
  then show ?thesis using assms(1) assms(2) by (rule doneHaveUrls_run)
qed

lemma styled_resolves_nonempty:
  "outcome (generateStyledImage hae api imagePart prompt) = Resolved u \<Longrightarrow> u \<noteq> []"
  by (auto simp: generateStyledImage_def prefixedGeneration_def Let_def
        split: sum.splits settled.splits if_splits
        dest: callImageEditingModel_resolved_nonempty)

text \<open>
  Claim C6. For a completed batch (the effect runs in state \<open>generating-images\<close>, there
  are \<open>imageCount > 0\<close> entries, all terminal, each \<open>done\<close> entry with its URL): if every
  entry has status \<open>error\<close> the effect reports the one total-failure error; if some entry
  has status \<open>done\<close> the effect calls \<open>createVideo\<close> with exactly the URLs of the
  \<open>done\<close> entries, in order, and sets the partial-failure notice exactly when some entry
  has status \<open>error\<close>.
\<close>

theorem batch_aggregate:
  assumes "length (objectValues images) = imageCount" and "0 < imageCount"
    and "list_all isTerminal (objectValues images)"
    and "doneHaveUrls (objectValues images)"
  shows "((\<forall>img \<in> set (objectValues images). img_status img = Error) \<longrightarrow>
            allDoneEffect GeneratingImages imageCount images = TotalFailure allFailedMessage)
       \<and> ((\<exists>img \<in> set (objectValues images). img_status img = Done) \<longrightarrow>
            allDoneEffect GeneratingImages imageCount images
              = CreateVideo
                  (if \<exists>img \<in> set (objectValues images). img_status img = Error
                   then Some partialFailureNotice else None)
                  (successfulArtifacts (objectValues images)))"
proof -
  let ?vals = "objectValues images"
  let ?succ = "filter (\<lambda>img. img_status img = Done \<and> truthy_string (img_url img)) ?vals"
  have np: "list_all (\<lambda>img. img_status img \<noteq> Pending) ?vals"
    using assms(3) by (simp add: list_all_iff terminal_not_pending)
  have succ: "?succ = filter (\<lambda>img. img_status img = Done) ?vals"
    using assms(4) by (rule filter_done_same)
  have len: "length ?vals = imageCount" using assms(1) .
  have eff: "allDoneEffect GeneratingImages imageCount images
       = (if length ?succ = 0 then TotalFailure allFailedMessage
          else CreateVideo (if length ?succ < imageCount then Some partialFailureNotice else None)
                 (successfulArtifacts ?vals))"
  proof -
    have "?vals \<noteq> []" using len assms(2) by auto
    then show ?thesis
      using len np filter_done_urls [OF assms(4)]
      by (simp add: allDoneEffect_def Let_def)
  qed
  have a: "allDoneEffect GeneratingImages imageCount images = TotalFailure allFailedMessage"
    if "\<forall>img \<in> set ?vals. img_status img = Error"
  proof -
    from that have "filter (\<lambda>img. img_status img = Done) ?vals = []"
      by (auto simp: filter_empty_conv)
    with eff succ show ?thesis by simp
  qed
  have b: "allDoneEffect GeneratingImages imageCount images
              = CreateVideo
                  (if \<exists>img \<in> set ?vals. img_status img = Error
                   then Some partialFailureNotice else None)
                  (successfulArtifacts ?vals)"
    if "\<exists>img \<in> set ?vals. img_status img = Done"
  proof -
    from that have ne: "length ?succ \<noteq> 0"
      unfolding succ by (auto simp: filter_empty_conv)
    have "length ?succ < imageCount \<longleftrightarrow> (\<exists>img \<in> set ?vals. img_status img \<noteq> Done)"
      unfolding succ using filter_length_lt [of "\<lambda>img. img_status img = Done" ?vals] len by simp
    also have "\<dots> \<longleftrightarrow> (\<exists>img \<in> set ?vals. img_status img = Error)"
    proof -
      have "img_status img \<noteq> Done \<longleftrightarrow> img_status img = Error" if "img \<in> set ?vals" for img
        using np that by (cases "img_status img") (auto simp: list_all_iff)
      then show ?thesis by blast
    qed
    finally have "length ?succ < imageCount \<longleftrightarrow> (\<exists>img \<in> set ?vals. img_status img = Error)" .
    with eff ne show ?thesis by simp
  qed
  from a b show ?thesis by blast
qed

theorem batch_aggregate_witness:
  "length (objectValues oneOfFiveFailed) = 5 \<and> (0::nat) < 5
   \<and> list_all isTerminal (objectValues oneOfFiveFailed)
   \<and> doneHaveUrls (objectValues oneOfFiveFailed)
   \<and> allDoneEffect GeneratingImages 5 oneOfFiveFailed
       = CreateVideo (Some partialFailureNotice) [''data:a'', ''data:c'', ''data:d'', ''data:e'']
   \<and> list_all isTerminal (objectValues allFiveFailed)
   \<and> doneHaveUrls (objectValues allFiveFailed)
   \<and> allDoneEffect GeneratingImages 5 allFiveFailed = TotalFailure allFailedMessage"
proof -
  have l1: "length (objectValues oneOfFiveFailed) = 5"
    by (simp add: objectValues_def oneOfFiveFailed_def)
  have t1: "list_all isTerminal (objectValues oneOfFiveFailed)"
    by (simp add: objectValues_def oneOfFiveFailed_def isTerminal_def doneImage_def errorImage_def)
  have u1: "doneHaveUrls (objectValues oneOfFiveFailed)"
    by (simp add: objectValues_def oneOfFiveFailed_def doneHaveUrls_def doneImage_def
          errorImage_def truthy_string_def)
  have l2: "length (objectValues allFiveFailed) = 5"
    by (simp add: objectValues_def allFiveFailed_def)
  have t2: "list_all isTerminal (objectValues allFiveFailed)"
    by (simp add: objectValues_def allFiveFailed_def isTerminal_def errorImage_def)
  have u2: "doneHaveUrls (objectValues allFiveFailed)"
    by (simp add: objectValues_def allFiveFailed_def doneHaveUrls_def errorImage_def)
  have pos: "(0::nat) < 5" by simp
  have a1: "successfulArtifacts (objectValues oneOfFiveFailed)
              = [''data:a'', ''data:c'', ''data:d'', ''data:e'']"
    by (simp add: objectValues_def oneOfFiveFailed_def successfulArtifacts_def doneImage_def
          errorImage_def)
  have s1: "(\<exists>img \<in> set (objectValues oneOfFiveFailed). img_status img = Done)
            \<and> (\<exists>img \<in> set (objectValues oneOfFiveFailed). img_status img = Error)"
    by (simp add: objectValues_def oneOfFiveFailed_def doneImage_def errorImage_def)
  have s2: "\<forall>img \<in> set (objectValues allFiveFailed). img_status img = Error"
    by (simp add: objectValues_def allFiveFailed_def errorImage_def)
  show ?thesis
    using l1 t1 u1 t2 u2 a1 s1 s2
      batch_aggregate [OF l1 pos t1 u1] batch_aggregate [OF l2 pos t2 u2]
    by simp
qed

end
